theory Spec2Isabelle
  imports Complex_Main "HOL-Library.Word" "HOL-Library.AList"
begin

text \<open>
  A shallow embedding of the live control protocol of godot-mcp: the value codec and the
  command dispatcher of the in-game agent (\<^verbatim>\<open>mcp_interaction_server.gd\<close>) and the connection
  manager and request correlator of the controller (\<^verbatim>\<open>src/index.ts\<close>), followed by the
  theorems about them.
\<close>

section \<open>Value codec of the agent\<close>

subsection \<open>Values\<close>

text \<open>
  GDScript is dynamically typed: a JSON value is itself a \<^verbatim>\<open>Variant\<close> (a Dictionary, an
  Array, a float, ...), so one type serves for native values and for their JSON form.
  GDScript floats are modelled as reals: the codec only copies them and converts integers
  to them, it performs no floating-point arithmetic. \<^verbatim>\<open>int\<close> is a 64-bit word and the
  components of \<^verbatim>\<open>Vector2i\<close>/\<^verbatim>\<open>Vector3i\<close> are 32-bit words, both read as signed.
  A Dictionary is an association list in insertion order whose keys are distinct; lookup
  is \<^const>\<open>map_of\<close>. An object is represented by what the codec reads from it: its class,
  and its name and path, its resource path, or its instance id. \<open>VOther s\<close> stands for a
  value of any other Variant type, with \<open>s\<close> its \<^verbatim>\<open>str()\<close> rendering.
\<close>

datatype vector2 = Vector2 real real
datatype vector2i = Vector2i "32 word" "32 word"
datatype vector3 = Vector3 real real real
datatype vector3i = Vector3i "32 word" "32 word" "32 word"
datatype color = Color real real real real
datatype quaternion = Quaternion real real real real
datatype basis = Basis vector3 vector3 vector3
datatype transform3d = Transform3D basis vector3
datatype transform2d = Transform2D vector2 vector2 vector2
datatype rect2 = Rect2 vector2 vector2
datatype aabb = AABB vector3 vector3
datatype object = Node string string string | Resource string string | Object string "64 word"

datatype variant =
    VNil
  | VBool bool
  | VInt "64 word"
  | VFloat real
  | VString string
  | VVector2 vector2
  | VVector2i vector2i
  | VVector3 vector3
  | VVector3i vector3i
  | VColor color
  | VQuaternion quaternion
  | VBasis basis
  | VTransform3D transform3d
  | VTransform2D transform2d
  | VRect2 rect2
  | VAABB aabb
  | VNodePath string
  | VStringName string
  | VPackedByteArray "8 word list"
  | VPackedInt32Array "32 word list"
  | VPackedInt64Array "64 word list"
  | VPackedFloatArray "real list"
  | VPackedStringArray "string list"
  | VPackedVector2Array "vector2 list"
  | VPackedVector3Array "vector3 list"
  | VPackedColorArray "color list"
  | VArray "variant list"
  | VDictionary "(variant \<times> variant) list"
  | VObject object
  | VOther string

type_synonym dictionary = "(variant \<times> variant) list"

text \<open>A runtime error of GDScript (a failed conversion or a typed assignment of a value of
  the wrong type) aborts the running function.\<close>

datatype error = RuntimeError

text \<open>\<^verbatim>\<open>dict.has(k)\<close>, \<^verbatim>\<open>dict.get(k, default)\<close> and \<^verbatim>\<open>dict.size()\<close> for a string key.\<close>

definition dict_has :: "dictionary \<Rightarrow> string \<Rightarrow> bool" where
  "dict_has d k = (map_of d (VString k) \<noteq> None)"

definition dict_get :: "dictionary \<Rightarrow> string \<Rightarrow> variant \<Rightarrow> variant" where
  "dict_get d k dflt = (case map_of d (VString k) of None \<Rightarrow> dflt | Some v \<Rightarrow> v)"

definition dict_size :: "dictionary \<Rightarrow> nat" where
  "dict_size d = length (remdups (map fst d))"

subsection \<open>Encoding: \<^verbatim>\<open>_variant_to_json\<close>\<close>




subsection \<open>Decoding: \<^verbatim>\<open>_json_to_variant\<close>\<close>

text \<open>
  \<^verbatim>\<open>float(v)\<close> and \<^verbatim>\<open>int(v)\<close> convert numbers, booleans and strings and fail on every
  other value; the conversions of strings (\<^verbatim>\<open>String.to_float\<close>, \<^verbatim>\<open>String.to_int\<close>) are the
  parameters \<open>sf\<close> and \<open>si\<close>. \<open>as_dictionary\<close> is the assignment to a variable declared
  \<^verbatim>\<open>Dictionary\<close>. \<open>on_ok\<close> sequences two steps, the second running only if the first did
  not fail.
\<close>

definition to_float :: "(string \<Rightarrow> real) \<Rightarrow> variant \<Rightarrow> error + real" where
  "to_float sf v =
     (case v of
        VFloat r \<Rightarrow> Inr r
      | VInt i \<Rightarrow> Inr (real_of_int (sint i))
      | VBool b \<Rightarrow> Inr (if b then 1 else 0)
      | VString s \<Rightarrow> Inr (sf s)
      | _ \<Rightarrow> Inl RuntimeError)"

definition to_int :: "(string \<Rightarrow> 64 word) \<Rightarrow> variant \<Rightarrow> error + 64 word" where
  "to_int si v =
     (case v of
        VInt i \<Rightarrow> Inr i
      | VFloat r \<Rightarrow> Inr (word_of_int (if 0 \<le> r then \<lfloor>r\<rfloor> else \<lceil>r\<rceil>))
      | VBool b \<Rightarrow> Inr (if b then 1 else 0)
      | VString s \<Rightarrow> Inr (si s)
      | _ \<Rightarrow> Inl RuntimeError)"

definition as_dictionary :: "variant \<Rightarrow> error + dictionary" where
  "as_dictionary v = (case v of VDictionary d \<Rightarrow> Inr d | _ \<Rightarrow> Inl RuntimeError)"

definition on_ok :: "error + 'a \<Rightarrow> ('a \<Rightarrow> error + 'b) \<Rightarrow> error + 'b" where
  "on_ok r f = (case r of Inl e \<Rightarrow> Inl e | Inr x \<Rightarrow> f x)"

text \<open>\<^verbatim>\<open>float(d.get(k, dflt))\<close> and \<^verbatim>\<open>int(d.get(k, dflt))\<close> with an integer literal as default;
  \<open>float2\<close> and \<open>float3\<close> are the recurring \<^verbatim>\<open>float(d.get("x", 0)), float(d.get("y", 0))[,
  float(d.get("z", 0))]\<close>; \<open>xy_dict\<close> and \<open>xyz_dict\<close> are the literal default dictionaries
  \<^verbatim>\<open>{"x": a, "y": b}\<close> and \<^verbatim>\<open>{"x": a, "y": b, "z": c}\<close>.\<close>

definition get_float :: "(string \<Rightarrow> real) \<Rightarrow> dictionary \<Rightarrow> string \<Rightarrow> int \<Rightarrow> error + real" where
  "get_float sf d k dflt = to_float sf (dict_get d k (VInt (word_of_int dflt)))"

definition get_int :: "(string \<Rightarrow> 64 word) \<Rightarrow> dictionary \<Rightarrow> string \<Rightarrow> int \<Rightarrow> error + 64 word" where
  "get_int si d k dflt = to_int si (dict_get d k (VInt (word_of_int dflt)))"

definition float2 :: "(string \<Rightarrow> real) \<Rightarrow> dictionary \<Rightarrow> error + vector2" where
  "float2 sf d =
     on_ok (get_float sf d ''x'' 0) (\<lambda>x.
     on_ok (get_float sf d ''y'' 0) (\<lambda>y.
     Inr (Vector2 x y)))"

definition float3 :: "(string \<Rightarrow> real) \<Rightarrow> dictionary \<Rightarrow> error + vector3" where
  "float3 sf d =
     on_ok (get_float sf d ''x'' 0) (\<lambda>x.
     on_ok (get_float sf d ''y'' 0) (\<lambda>y.
     on_ok (get_float sf d ''z'' 0) (\<lambda>z.
     Inr (Vector3 x y z))))"

definition xy_dict :: "int \<Rightarrow> int \<Rightarrow> variant" where
  "xy_dict x y =
     VDictionary [(VString ''x'', VInt (word_of_int x)), (VString ''y'', VInt (word_of_int y))]"

definition xyz_dict :: "int \<Rightarrow> int \<Rightarrow> int \<Rightarrow> variant" where
  "xyz_dict x y z =
     VDictionary [(VString ''x'', VInt (word_of_int x)), (VString ''y'', VInt (word_of_int y)),
                  (VString ''z'', VInt (word_of_int z))]"

definition IDENTITY :: basis where
  "IDENTITY = Basis (Vector3 1 0 0) (Vector3 0 1 0) (Vector3 0 0 1)"

text \<open>
  The arms of \<^verbatim>\<open>match type_hint\<close>, one definition each. The arm \<^verbatim>\<open>"Transform3D"\<close> calls
  \<^verbatim>\<open>_json_to_variant(basis_dict, "Basis")\<close> on a Dictionary, which enters the arm
  \<^verbatim>\<open>"Basis"\<close>; the result is assigned to a variable declared \<^verbatim>\<open>Basis\<close>.
\<close>

definition hint_Vector2 :: "(string \<Rightarrow> real) \<Rightarrow> dictionary \<Rightarrow> error + variant" where
  "hint_Vector2 sf dict = on_ok (float2 sf dict) (\<lambda>v. Inr (VVector2 v))"

definition hint_Vector2i :: "(string \<Rightarrow> 64 word) \<Rightarrow> dictionary \<Rightarrow> error + variant" where
  "hint_Vector2i si dict =
     on_ok (get_int si dict ''x'' 0) (\<lambda>x.
     on_ok (get_int si dict ''y'' 0) (\<lambda>y.
     Inr (VVector2i (Vector2i (scast x) (scast y)))))"

definition hint_Vector3 :: "(string \<Rightarrow> real) \<Rightarrow> dictionary \<Rightarrow> error + variant" where
  "hint_Vector3 sf dict = on_ok (float3 sf dict) (\<lambda>v. Inr (VVector3 v))"

definition hint_Vector3i :: "(string \<Rightarrow> 64 word) \<Rightarrow> dictionary \<Rightarrow> error + variant" where
  "hint_Vector3i si dict =
     on_ok (get_int si dict ''x'' 0) (\<lambda>x.
     on_ok (get_int si dict ''y'' 0) (\<lambda>y.
     on_ok (get_int si dict ''z'' 0) (\<lambda>z.
     Inr (VVector3i (Vector3i (scast x) (scast y) (scast z))))))"

definition hint_Color :: "(string \<Rightarrow> real) \<Rightarrow> dictionary \<Rightarrow> error + variant" where
  "hint_Color sf dict =
     on_ok (get_float sf dict ''r'' 0) (\<lambda>r.
     on_ok (get_float sf dict ''g'' 0) (\<lambda>g.
     on_ok (get_float sf dict ''b'' 0) (\<lambda>b.
     on_ok (get_float sf dict ''a'' 1) (\<lambda>a.
     Inr (VColor (Color r g b a))))))"

definition hint_Quaternion :: "(string \<Rightarrow> real) \<Rightarrow> dictionary \<Rightarrow> error + variant" where
  "hint_Quaternion sf dict =
     on_ok (get_float sf dict ''x'' 0) (\<lambda>x.
     on_ok (get_float sf dict ''y'' 0) (\<lambda>y.
     on_ok (get_float sf dict ''z'' 0) (\<lambda>z.
     on_ok (get_float sf dict ''w'' 1) (\<lambda>w.
     Inr (VQuaternion (Quaternion x y z w))))))"

definition hint_Rect2 :: "(string \<Rightarrow> real) \<Rightarrow> dictionary \<Rightarrow> error + variant" where
  "hint_Rect2 sf dict =
     on_ok (as_dictionary (dict_get dict ''position'' (xy_dict 0 0))) (\<lambda>pos.
     on_ok (as_dictionary (dict_get dict ''size'' (xy_dict 0 0))) (\<lambda>sz.
     on_ok (float2 sf pos) (\<lambda>p.
     on_ok (float2 sf sz) (\<lambda>s.
     Inr (VRect2 (Rect2 p s))))))"

definition hint_AABB :: "(string \<Rightarrow> real) \<Rightarrow> dictionary \<Rightarrow> error + variant" where
  "hint_AABB sf dict =
     on_ok (as_dictionary (dict_get dict ''position'' (xyz_dict 0 0 0))) (\<lambda>aabb_pos.
     on_ok (as_dictionary (dict_get dict ''size'' (xyz_dict 0 0 0))) (\<lambda>aabb_sz.
     on_ok (float3 sf aabb_pos) (\<lambda>p.
     on_ok (float3 sf aabb_sz) (\<lambda>s.
     Inr (VAABB (AABB p s))))))"

definition hint_Basis :: "(string \<Rightarrow> real) \<Rightarrow> dictionary \<Rightarrow> error + basis" where
  "hint_Basis sf dict =
     on_ok (as_dictionary (dict_get dict ''x'' (xyz_dict 1 0 0))) (\<lambda>bx.
     on_ok (as_dictionary (dict_get dict ''y'' (xyz_dict 0 1 0))) (\<lambda>by.
     on_ok (as_dictionary (dict_get dict ''z'' (xyz_dict 0 0 1))) (\<lambda>bz.
     on_ok (float3 sf bx) (\<lambda>vx.
     on_ok (float3 sf by) (\<lambda>vy.
     on_ok (float3 sf bz) (\<lambda>vz.
     Inr (Basis vx vy vz)))))))"

definition hint_Transform3D :: "(string \<Rightarrow> real) \<Rightarrow> dictionary \<Rightarrow> error + variant" where
  "hint_Transform3D sf dict =
     on_ok (as_dictionary (dict_get dict ''basis'' (VDictionary []))) (\<lambda>basis_dict.
     on_ok (as_dictionary (dict_get dict ''origin'' (xyz_dict 0 0 0))) (\<lambda>origin_dict.
     on_ok (if dict_size basis_dict > 0 then hint_Basis sf basis_dict else Inr IDENTITY) (\<lambda>basis.
     on_ok (float3 sf origin_dict) (\<lambda>origin.
     Inr (VTransform3D (Transform3D basis origin))))))"

definition hint_Transform2D :: "(string \<Rightarrow> real) \<Rightarrow> dictionary \<Rightarrow> error + variant" where
  "hint_Transform2D sf dict =
     on_ok (as_dictionary (dict_get dict ''x'' (xy_dict 1 0))) (\<lambda>tx.
     on_ok (as_dictionary (dict_get dict ''y'' (xy_dict 0 1))) (\<lambda>ty.
     on_ok (as_dictionary (dict_get dict ''origin'' (xy_dict 0 0))) (\<lambda>t_origin.
     on_ok (float2 sf tx) (\<lambda>vx.
     on_ok (float2 sf ty) (\<lambda>vy.
     on_ok (float2 sf t_origin) (\<lambda>vo.
     Inr (VTransform2D (Transform2D vx vy vo))))))))"

text \<open>The \<^verbatim>\<open>match\<close> statement: \<open>None\<close> when no arm matches and control falls through.\<close>

definition match_type_hint ::
  "(string \<Rightarrow> real) \<Rightarrow> (string \<Rightarrow> 64 word) \<Rightarrow> dictionary \<Rightarrow> string \<Rightarrow> (error + variant) option" where
  "match_type_hint sf si dict type_hint =
     (if type_hint = ''Vector2'' then Some (hint_Vector2 sf dict)
      else if type_hint = ''Vector2i'' then Some (hint_Vector2i si dict)
      else if type_hint = ''Vector3'' then Some (hint_Vector3 sf dict)
      else if type_hint = ''Vector3i'' then Some (hint_Vector3i si dict)
      else if type_hint = ''Color'' then Some (hint_Color sf dict)
      else if type_hint = ''Quaternion'' then Some (hint_Quaternion sf dict)
      else if type_hint = ''Rect2'' then Some (hint_Rect2 sf dict)
      else if type_hint = ''AABB'' then Some (hint_AABB sf dict)
      else if type_hint = ''Basis'' then Some (on_ok (hint_Basis sf dict) (\<lambda>b. Inr (VBasis b)))
      else if type_hint = ''Transform3D'' then Some (hint_Transform3D sf dict)
      else if type_hint = ''Transform2D'' then Some (hint_Transform2D sf dict)
      else None)"

text \<open>
  The chain of \<^verbatim>\<open>if\<close>s after the \<^verbatim>\<open>match\<close>. Its calls \<^verbatim>\<open>_json_to_variant(dict, "Transform3D")\<close>,
  \<^verbatim>\<open>(dict, "AABB")\<close> and \<^verbatim>\<open>(dict, "Rect2")\<close> enter the arm of that name. \<^verbatim>\<open>dict["position"]\<close>
  and \<^verbatim>\<open>dict["size"]\<close> are read after \<^verbatim>\<open>dict.has\<close> has succeeded for both.
\<close>

definition auto_detect :: "(string \<Rightarrow> real) \<Rightarrow> dictionary \<Rightarrow> error + variant" where
  "auto_detect sf dict =
     (if dict_has dict ''basis'' \<and> dict_has dict ''origin'' then hint_Transform3D sf dict
      else if dict_has dict ''r'' \<and> dict_has dict ''g'' \<and> dict_has dict ''b'' then
        on_ok (get_float sf dict ''r'' 0) (\<lambda>r.
        on_ok (get_float sf dict ''g'' 0) (\<lambda>g.
        on_ok (get_float sf dict ''b'' 0) (\<lambda>b.
        on_ok (get_float sf dict ''a'' 1) (\<lambda>a.
        Inr (VColor (Color r g b a))))))
      else if dict_has dict ''x'' \<and> dict_has dict ''y'' \<and> dict_has dict ''z'' \<and> dict_has dict ''w'' then
        on_ok (get_float sf dict ''x'' 0) (\<lambda>x.
        on_ok (get_float sf dict ''y'' 0) (\<lambda>y.
        on_ok (get_float sf dict ''z'' 0) (\<lambda>z.
        on_ok (get_float sf dict ''w'' 1) (\<lambda>w.
        Inr (VQuaternion (Quaternion x y z w))))))
      else if dict_has dict ''position'' \<and> dict_has dict ''size'' then
        on_ok (as_dictionary (dict_get dict ''position'' VNil)) (\<lambda>pos_dict.
        on_ok (as_dictionary (dict_get dict ''size'' VNil)) (\<lambda>size_dict.
        if dict_has pos_dict ''z'' \<or> dict_has size_dict ''z''
        then hint_AABB sf dict
        else hint_Rect2 sf dict))
      else if dict_has dict ''x'' \<and> dict_has dict ''y'' \<and> dict_has dict ''z'' then
        on_ok (float3 sf dict) (\<lambda>v. Inr (VVector3 v))
      else if dict_has dict ''x'' \<and> dict_has dict ''y'' \<and> dict_size dict = 2 then
        on_ok (float2 sf dict) (\<lambda>v. Inr (VVector2 v))
      else Inr (VDictionary dict))"

definition json_to_variant ::
  "(string \<Rightarrow> real) \<Rightarrow> (string \<Rightarrow> 64 word) \<Rightarrow> variant \<Rightarrow> string \<Rightarrow> error + variant" where
  "json_to_variant sf si val type_hint =
     (case val of
        VNil \<Rightarrow> Inr VNil
      | VDictionary dict \<Rightarrow>
          (case match_type_hint sf si dict type_hint of
             Some r \<Rightarrow> r
           | None \<Rightarrow> auto_detect sf dict)
      | _ \<Rightarrow> Inr val)"

subsection \<open>Specification side of the codec claims\<close>




text \<open>
  The specification's precedence order of structural auto-detection, written from its
  words: the shape of a plain object, and what an object of each shape decodes to.
\<close>

datatype shape = TransformShaped | ColorShaped | QuaternionShaped | BoxShaped | RectShaped
  | Vector3Shaped | Vector2Shaped | PassThrough

definition has_z_field :: "variant \<Rightarrow> bool" where
  "has_z_field v = (case v of VDictionary p \<Rightarrow> dict_has p ''z'' | _ \<Rightarrow> False)"

definition spec_shape :: "dictionary \<Rightarrow> shape" where
  "spec_shape d =
     (if dict_has d ''basis'' \<and> dict_has d ''origin'' then TransformShaped
      else if dict_has d ''r'' \<and> dict_has d ''g'' \<and> dict_has d ''b'' then ColorShaped
      else if dict_has d ''x'' \<and> dict_has d ''y'' \<and> dict_has d ''z'' \<and> dict_has d ''w''
        then QuaternionShaped
      else if dict_has d ''position'' \<and> dict_has d ''size'' then
        (if has_z_field (dict_get d ''position'' VNil) \<or> has_z_field (dict_get d ''size'' VNil)
         then BoxShaped else RectShaped)
      else if dict_has d ''x'' \<and> dict_has d ''y'' \<and> dict_has d ''z'' then Vector3Shaped
      else if fst ` set d = {VString ''x'', VString ''y''} then Vector2Shaped
      else PassThrough)"

definition spec_decode_shape ::
  "(string \<Rightarrow> real) \<Rightarrow> (string \<Rightarrow> 64 word) \<Rightarrow> shape \<Rightarrow> dictionary \<Rightarrow> error + variant" where
  "spec_decode_shape sf si sh d =
     (case sh of
        TransformShaped \<Rightarrow> json_to_variant sf si (VDictionary d) ''Transform3D''
      | ColorShaped \<Rightarrow> json_to_variant sf si (VDictionary d) ''Color''
      | QuaternionShaped \<Rightarrow> json_to_variant sf si (VDictionary d) ''Quaternion''
      | BoxShaped \<Rightarrow> json_to_variant sf si (VDictionary d) ''AABB''
      | RectShaped \<Rightarrow> json_to_variant sf si (VDictionary d) ''Rect2''
      | Vector3Shaped \<Rightarrow> json_to_variant sf si (VDictionary d) ''Vector3''
      | Vector2Shaped \<Rightarrow> json_to_variant sf si (VDictionary d) ''Vector2''
      | PassThrough \<Rightarrow> Inr (VDictionary d))"

section \<open>Command dispatcher of the agent\<close>

text \<open>
  The script's variables \<^verbatim>\<open>_client\<close>, \<^verbatim>\<open>_buffer\<close> and \<^verbatim>\<open>_busy\<close>, together with what the
  script leaves outside itself: the data written to a client with \<^verbatim>\<open>put_data\<close> (\<open>sent\<close>: the
  client and the Dictionary that is stringified and followed by a newline), and the
  handler coroutine that is waiting for the signal \<^verbatim>\<open>process_frame\<close> (\<open>suspended\<close>).
\<close>

text \<open>
  What a command handler \<^verbatim>\<open>_cmd_*\<close> does, as far as the dispatcher is concerned: it calls
  \<^verbatim>\<open>_send_response\<close> with a Dictionary and returns, or it first awaits the next frame, or it
  ends without a response (a runtime error aborts it, or the code run by \<^verbatim>\<open>eval\<close> never
  returns).
\<close>

datatype coroutine = Respond variant | AwaitFrame coroutine | NoResponse

record agent =
  client :: "nat option"
  buffer :: string
  busy :: bool
  suspended :: "coroutine option"
  sent :: "(nat \<times> variant) list"

definition error_response :: "string \<Rightarrow> variant" where
  "error_response msg = VDictionary [(VString ''error'', VString msg)]"

definition busy_response :: variant where
  "busy_response = error_response ''Server busy processing another command. Try again.''"

definition send_response_raw :: "agent \<Rightarrow> variant \<Rightarrow> agent" where
  "send_response_raw s data =
     (case client s of
        None \<Rightarrow> s
      | Some c \<Rightarrow> s\<lparr>sent := sent s @ [(c, data)]\<rparr>)"

definition send_response :: "agent \<Rightarrow> variant \<Rightarrow> agent" where
  "send_response s data = send_response_raw (s\<lparr>busy := False\<rparr>) data"

text \<open>Running a handler up to its first \<^verbatim>\<open>await\<close> or to its end.\<close>

fun run :: "coroutine \<Rightarrow> agent \<Rightarrow> agent" where
  "run (Respond data) s = send_response s data"
| "run (AwaitFrame k) s = s\<lparr>suspended := Some k\<rparr>"
| "run NoResponse s = s"

text \<open>The signal \<^verbatim>\<open>process_frame\<close>: the waiting handler, if there is one, goes on.\<close>

definition process_frame :: "agent \<Rightarrow> agent" where
  "process_frame s =
     (case suspended s of
        None \<Rightarrow> s
      | Some k \<Rightarrow> run k (s\<lparr>suspended := None\<rparr>))"

text \<open>A handler that calls \<^verbatim>\<open>_send_response\<close> does so after a number of awaited frames and
  with some Dictionary: \<open>completes\<close> gives both.\<close>

fun completes :: "coroutine \<Rightarrow> (nat \<times> variant) option" where
  "completes (Respond data) = Some (0, data)"
| "completes (AwaitFrame k) = map_option (\<lambda>(n, data). (Suc n, data)) (completes k)"
| "completes NoResponse = None"

text \<open>The names of the \<^verbatim>\<open>match command\<close> statement, in its order.\<close>

definition commands :: "string list" where
  "commands =
     [''screenshot'', ''click'', ''key_press'', ''eval'', ''wait'', ''mouse_move'',
      ''get_ui_elements'', ''get_scene_tree'', ''get_property'', ''set_property'',
      ''call_method'', ''get_node_info'', ''instantiate_scene'', ''remove_node'',
      ''change_scene'', ''pause'', ''get_performance'', ''connect_signal'',
      ''disconnect_signal'', ''emit_signal'', ''play_animation'', ''tween_property'',
      ''get_nodes_in_group'', ''find_nodes_by_class'', ''reparent_node'']"

text \<open>
  The parameter \<open>handlers\<close> gives, for a command of the list and its parameters, what its
  handler does in the running game; any other name is answered by the last arm.
\<close>

definition dispatch :: "(string \<Rightarrow> dictionary \<Rightarrow> coroutine) \<Rightarrow> string \<Rightarrow> dictionary \<Rightarrow> coroutine" where
  "dispatch handlers command params =
     (if command \<in> set commands then handlers command params
      else Respond (error_response (''Unknown command: '' @ command)))"

text \<open>
  \<^verbatim>\<open>_handle_command\<close>. The parameter \<open>parse\<close> is \<^verbatim>\<open>JSON.parse\<close>: the error message, or the
  parsed value. The variables \<^verbatim>\<open>command\<close> and \<^verbatim>\<open>params\<close> are declared \<^verbatim>\<open>String\<close> and
  \<^verbatim>\<open>Dictionary\<close>: a value of another type is a runtime error that aborts the function where
  it stands, after \<^verbatim>\<open>_busy = true\<close> and before any response.
\<close>

definition handle_command ::
  "(string \<Rightarrow> string + variant) \<Rightarrow> (string \<Rightarrow> dictionary \<Rightarrow> coroutine) \<Rightarrow> agent \<Rightarrow> string \<Rightarrow> agent" where
  "handle_command parse handlers s json_str =
     (if busy s then send_response_raw s busy_response
      else
        let s1 = s\<lparr>busy := True\<rparr> in
        (case parse json_str of
           Inl msg \<Rightarrow> send_response s1 (error_response (''Invalid JSON: '' @ msg))
         | Inr data \<Rightarrow>
             (case data of
                VDictionary d \<Rightarrow>
                  (case dict_get d ''command'' (VString []) of
                     VString command \<Rightarrow>
                       (case dict_get d ''params'' (VDictionary []) of
                          VDictionary params \<Rightarrow> run (dispatch handlers command params) s1
                        | _ \<Rightarrow> s1)
                   | _ \<Rightarrow> s1)
              | _ \<Rightarrow> send_response s1 (error_response ''Expected JSON object''))))"

text \<open>
  The line loop of \<^verbatim>\<open>_process\<close>, entered after the text of the received bytes has been
  appended to \<^verbatim>\<open>_buffer\<close>. \<^verbatim>\<open>find\<close> gives the position of the first newline or \<open>-1\<close>;
  \<^verbatim>\<open>strip_edges\<close> removes the characters up to code 32 from both ends.
\<close>

definition find_newline :: "string \<Rightarrow> int" where
  "find_newline s =
     (if CHR 0x0A \<in> set s then int (length (takeWhile (\<lambda>c. c \<noteq> CHR 0x0A) s)) else - 1)"

definition strip_edges :: "string \<Rightarrow> string" where
  "strip_edges s =
     rev (dropWhile (\<lambda>c. (of_char c :: nat) \<le> 32) (rev (dropWhile (\<lambda>c. (of_char c :: nat) \<le> 32) s)))"

function process_lines ::
  "(string \<Rightarrow> string + variant) \<Rightarrow> (string \<Rightarrow> dictionary \<Rightarrow> coroutine) \<Rightarrow> agent \<Rightarrow> agent" where
  "process_lines parse handlers s =
     (if find_newline (buffer s) \<ge> 0 then
        let newline_pos = nat (find_newline (buffer s));
            line = strip_edges (take newline_pos (buffer s));
            s1 = s\<lparr>buffer := drop (newline_pos + 1) (buffer s)\<rparr>
        in process_lines parse handlers
             (if length line > 0 then handle_command parse handlers s1 line else s1)
      else s)"
  by pat_completeness auto
termination
proof (relation "measure (\<lambda>(parse, handlers, s). length (buffer s))", goal_cases)
  case 1
  show ?case by simp
next
  case (2 parse handlers s newline_pos line s1)
  have same: "buffer (handle_command parse handlers s1 line) = buffer s1"
  proof -
    have r: "\<And>k t. buffer (run k t) = buffer t"
    proof -
      fix k t show "buffer (run k t) = buffer t"
        by (cases k) (simp_all add: send_response_def send_response_raw_def split: option.splits)
    qed
    show ?thesis
      by (simp add: handle_command_def send_response_def send_response_raw_def r Let_def
          split: option.splits sum.splits variant.splits)
  qed
  from 2 have "buffer s \<noteq> []"
    by (auto simp add: find_newline_def split: if_splits)
  with 2 same show ?case
    by (auto split: if_splits)
qed

declare process_lines.simps [simp del]

text \<open>The part of \<^verbatim>\<open>_process\<close> that receives the text \<open>chunk\<close> of the available bytes.\<close>

definition process_data ::
  "(string \<Rightarrow> string + variant) \<Rightarrow> (string \<Rightarrow> dictionary \<Rightarrow> coroutine) \<Rightarrow> agent \<Rightarrow> string \<Rightarrow> agent" where
  "process_data parse handlers s chunk = process_lines parse handlers (s\<lparr>buffer := buffer s @ chunk\<rparr>)"


section \<open>Connection manager and request correlator of the controller\<close>

subsection \<open>Text of a received chunk\<close>

text \<open>
  A chunk is a \<^verbatim>\<open>Buffer\<close> of bytes and a JavaScript string is a sequence of UTF-16 code
  units. \<^verbatim>\<open>data.toString()\<close> decodes the bytes of one chunk as UTF-8, on its own: every byte
  or truncated sequence that is not well-formed UTF-8 becomes U+FFFD, the replacement
  character. The decoder is the one of the Encoding Standard: \<open>utf8_start\<close> reads a lead
  byte, \<open>utf8_step\<close> a byte in the state (bytes needed, code point so far, lower and upper
  bound of the next byte).
\<close>

type_synonym byte = "8 word"
type_synonym jsstring = "16 word list"
type_synonym utf8_state = "nat \<times> nat \<times> nat \<times> nat"

definition utf8_idle :: utf8_state where
  "utf8_idle = (0, 0, 0x80, 0xBF)"

definition utf8_start :: "nat \<Rightarrow> nat list \<times> utf8_state" where
  "utf8_start b =
     (if b < 0x80 then ([b], utf8_idle)
      else if 0xC2 \<le> b \<and> b \<le> 0xDF then ([], (1, b mod 0x20, 0x80, 0xBF))
      else if 0xE0 \<le> b \<and> b \<le> 0xEF then
        ([], (2, b mod 0x10, if b = 0xE0 then 0xA0 else 0x80, if b = 0xED then 0x9F else 0xBF))
      else if 0xF0 \<le> b \<and> b \<le> 0xF4 then
        ([], (3, b mod 0x08, if b = 0xF0 then 0x90 else 0x80, if b = 0xF4 then 0x8F else 0xBF))
      else ([0xFFFD], utf8_idle))"

definition utf8_step :: "utf8_state \<Rightarrow> nat \<Rightarrow> nat list \<times> utf8_state" where
  "utf8_step st b =
     (case st of (needed, cp, lower, upper) \<Rightarrow>
        if needed = 0 then utf8_start b
        else if lower \<le> b \<and> b \<le> upper then
          (if needed = 1 then ([cp * 0x40 + b mod 0x40], utf8_idle)
           else ([], (needed - 1, cp * 0x40 + b mod 0x40, 0x80, 0xBF)))
        else (case utf8_start b of (out, st') \<Rightarrow> (0xFFFD # out, st')))"

fun utf8_decode :: "utf8_state \<Rightarrow> byte list \<Rightarrow> nat list" where
  "utf8_decode st [] = (if fst st = 0 then [] else [0xFFFD])"
| "utf8_decode st (b # bs) =
     (case utf8_step st (unat b) of (out, st') \<Rightarrow> out @ utf8_decode st' bs)"

definition utf16 :: "nat \<Rightarrow> jsstring" where
  "utf16 cp =
     (if cp < 0x10000 then [of_nat cp]
      else [of_nat (0xD800 + (cp - 0x10000) div 0x400), of_nat (0xDC00 + (cp - 0x10000) mod 0x400)])"

definition toString :: "byte list \<Rightarrow> jsstring" where
  "toString data = concat (map utf16 (utf8_decode utf8_idle data))"

text \<open>\<^verbatim>\<open>indexOf\<close>, and \<^verbatim>\<open>trim\<close> with the white space and line terminators of ECMAScript.\<close>

definition indexOf :: "jsstring \<Rightarrow> 16 word \<Rightarrow> int" where
  "indexOf s c = (if c \<in> set s then int (length (takeWhile (\<lambda>u. u \<noteq> c) s)) else - 1)"

definition is_white_space :: "16 word \<Rightarrow> bool" where
  "is_white_space u =
     (u \<in> {0x09, 0x0A, 0x0B, 0x0C, 0x0D, 0x20, 0xA0, 0x1680, 0x2028, 0x2029, 0x202F, 0x205F,
            0x3000, 0xFEFF}
      \<or> (0x2000 \<le> u \<and> u \<le> 0x200A))"

definition trim :: "jsstring \<Rightarrow> jsstring" where
  "trim s = rev (dropWhile is_white_space (rev (dropWhile is_white_space s)))"

subsection \<open>State\<close>

text \<open>
  The fields of \<^verbatim>\<open>gameConnection\<close> (\<open>socket\<close>: the handle of the socket or \<open>None\<close> for
  \<^verbatim>\<open>null\<close>; \<open>pendingResolve\<close>: the call whose resolver is installed), and around them what the
  closures of \<^verbatim>\<open>sendGameCommand\<close> hold. A call of \<^verbatim>\<open>sendGameCommand\<close> is numbered when it is
  made (\<open>calls\<close> counts them): it creates one promise and one timer. \<open>timers\<close> are the armed
  timers, each with the command and the delay of its call; \<open>completions\<close> records every
  invocation of the \<^verbatim>\<open>resolve\<close> or \<^verbatim>\<open>reject\<close> of a call's promise, in order; \<open>written\<close> are
  the command messages written to the socket; \<open>debug_log\<close> the lines given to \<^verbatim>\<open>logDebug\<close>.
\<close>

datatype 'j reply = Parsed 'j | ErrorObject string

datatype failure = NotConnected | TimedOut string nat

datatype 'j outcome = Resolve "'j reply" | Reject failure

datatype log_entry = ParseFailed jsstring | ConnectionClosed | SocketError

record 'j controller =
  socket :: "nat option"
  connected :: bool
  responseBuffer :: jsstring
  pendingResolve :: "nat option"
  projectPath :: "string option"
  timers :: "(nat \<times> string \<times> nat) list"
  completions :: "(nat \<times> 'j outcome) list"
  written :: "(nat \<times> string \<times> 'j) list"
  calls :: nat
  debug_log :: "log_entry list"

definition initial :: "'j controller" where
  "initial =
     \<lparr>socket = None, connected = False, responseBuffer = [], pendingResolve = None,
      projectPath = None, timers = [], completions = [], written = [], calls = 0, debug_log = []\<rparr>"

subsection \<open>\<^verbatim>\<open>sendGameCommand\<close> and its closures\<close>

definition clearTimeout :: "nat \<Rightarrow> 'j controller \<Rightarrow> 'j controller" where
  "clearTimeout call s = s\<lparr>timers := filter (\<lambda>t. fst t \<noteq> call) (timers s)\<rparr>"

text \<open>The function stored in \<^verbatim>\<open>pendingResolve\<close> by call \<open>call\<close>, applied to a response.\<close>

definition resolver :: "nat \<Rightarrow> 'j reply \<Rightarrow> 'j controller \<Rightarrow> 'j controller" where
  "resolver call response s =
     (let s1 = clearTimeout call s
      in s1\<lparr>completions := completions s1 @ [(call, Resolve response)]\<rparr>)"

text \<open>The callback of the timer of call \<open>call\<close>; a cleared timer does not fire.\<close>

definition on_timeout :: "nat \<Rightarrow> 'j controller \<Rightarrow> 'j controller" where
  "on_timeout call s =
     (case map_of (timers s) call of
        None \<Rightarrow> s
      | Some (command, timeoutMs) \<Rightarrow>
          (clearTimeout call s)
            \<lparr>pendingResolve := None,
             completions := completions s @ [(call, Reject (TimedOut command timeoutMs))]\<rparr>)"

text \<open>The \<^verbatim>\<open>throw\<close> of the async function rejects the promise it returns.\<close>

definition sendGameCommand :: "string \<Rightarrow> 'j \<Rightarrow> nat \<Rightarrow> 'j controller \<Rightarrow> 'j controller" where
  "sendGameCommand command params timeoutMs s =
     (let call = calls s; s0 = s\<lparr>calls := Suc call\<rparr> in
      case socket s of
        None \<Rightarrow> s0\<lparr>completions := completions s @ [(call, Reject NotConnected)]\<rparr>
      | Some sock \<Rightarrow>
          if \<not> connected s then s0\<lparr>completions := completions s @ [(call, Reject NotConnected)]\<rparr>
          else s0\<lparr>timers := timers s @ [(call, command, timeoutMs)],
                  pendingResolve := Some call,
                  written := written s @ [(sock, command, params)]\<rparr>)"

subsection \<open>The handlers wired by \<^verbatim>\<open>connectToGame\<close>\<close>

text \<open>The connect callback of a socket with handle \<open>sock\<close>.\<close>

definition on_connect :: "nat \<Rightarrow> 'j controller \<Rightarrow> 'j controller" where
  "on_connect sock s = s\<lparr>socket := Some sock, connected := True, responseBuffer := []\<rparr>"

text \<open>
  The \<^verbatim>\<open>while\<close> loop of the \<^verbatim>\<open>data\<close> handler. The parameter \<open>parse\<close> is \<^verbatim>\<open>JSON.parse\<close>, \<open>None\<close>
  when it throws.
\<close>

function drain :: "(jsstring \<Rightarrow> 'j option) \<Rightarrow> 'j controller \<Rightarrow> 'j controller" where
  "drain parse s =
     (if 0x0A \<in> set (responseBuffer s) then
        let newlinePos = nat (indexOf (responseBuffer s) 0x0A);
            line = trim (take newlinePos (responseBuffer s));
            s1 = s\<lparr>responseBuffer := drop (newlinePos + 1) (responseBuffer s)\<rparr>
        in drain parse
             (case pendingResolve s1 of
                Some call \<Rightarrow>
                  if length line > 0 then
                    (case parse line of
                       Some parsed \<Rightarrow> resolver call (Parsed parsed) (s1\<lparr>pendingResolve := None\<rparr>)
                     | None \<Rightarrow> s1\<lparr>debug_log := debug_log s1 @ [ParseFailed line]\<rparr>)
                  else s1
              | None \<Rightarrow> s1)
      else s)"
  by pat_completeness auto
termination
proof (relation "measure (\<lambda>(parse, s). length (responseBuffer s))", goal_cases)
  case 1
  show ?case by simp
next
  case (2 parse s newlinePos line s1)
  then have "responseBuffer s \<noteq> []"
    by auto
  with 2 show ?case
    by (auto simp add: resolver_def clearTimeout_def Let_def split: option.splits)
qed

declare drain.simps [simp del]

definition on_data :: "(jsstring \<Rightarrow> 'j option) \<Rightarrow> byte list \<Rightarrow> 'j controller \<Rightarrow> 'j controller" where
  "on_data parse data s = drain parse (s\<lparr>responseBuffer := responseBuffer s @ toString data\<rparr>)"

definition on_close :: "'j controller \<Rightarrow> 'j controller" where
  "on_close s =
     (let s1 = s\<lparr>debug_log := debug_log s @ [ConnectionClosed], connected := False, socket := None\<rparr> in
      case pendingResolve s1 of
        None \<Rightarrow> s1
      | Some call \<Rightarrow> (resolver call (ErrorObject ''Connection closed'') s1)\<lparr>pendingResolve := None\<rparr>)"

definition on_error :: "'j controller \<Rightarrow> 'j controller" where
  "on_error s = s\<lparr>debug_log := debug_log s @ [SocketError]\<rparr>"

definition disconnectFromGame :: "'j controller \<Rightarrow> 'j controller" where
  "disconnectFromGame s =
     (let s1 = s\<lparr>socket := None, connected := False, responseBuffer := []\<rparr> in
      case pendingResolve s1 of
        None \<Rightarrow> s1
      | Some call \<Rightarrow> (resolver call (ErrorObject ''Disconnected'') s1)\<lparr>pendingResolve := None\<rparr>)"

subsection \<open>Events\<close>

text \<open>
  The controller runs one callback at a time. What can happen to the connection, one event
  each: a chunk arrives, the socket closes or reports an error, the timer of a call
  fires, a command is sent, the connection is torn down, a socket connects.
\<close>

datatype 'j event =
    Data "byte list"
  | Close
  | Error
  | Timeout nat
  | Send string 'j nat
  | Disconnect
  | Connect nat

fun step :: "(jsstring \<Rightarrow> 'j option) \<Rightarrow> 'j controller \<Rightarrow> 'j event \<Rightarrow> 'j controller" where
  "step parse s (Data data) = on_data parse data s"
| "step parse s Close = on_close s"
| "step parse s Error = on_error s"
| "step parse s (Timeout call) = on_timeout call s"
| "step parse s (Send command params timeoutMs) = sendGameCommand command params timeoutMs s"
| "step parse s Disconnect = disconnectFromGame s"
| "step parse s (Connect sock) = on_connect sock s"

definition steps :: "(jsstring \<Rightarrow> 'j option) \<Rightarrow> 'j controller \<Rightarrow> 'j event list \<Rightarrow> 'j controller" where
  "steps parse s evs = foldl (step parse) s evs"

subsection \<open>\<^verbatim>\<open>connectToGame\<close>\<close>

text \<open>
  The routine waits and tries in turn; what it does is returned as a trace. The two
  parameters are what it reads from outside while it runs: whether \<^verbatim>\<open>this.activeProcess\<close>
  is set when attempt \<open>n\<close> begins, and whether the connection of attempt \<open>n\<close> is accepted.
  The socket of attempt \<open>n\<close> has handle \<open>n\<close>.
\<close>

datatype action =
    Delay nat
  | CreateConnection nat
  | DebugAborted
  | DebugConnected nat
  | ErrorConnected
  | DebugRetry nat
  | ErrorFailed nat

definition maxAttempts :: nat where
  "maxAttempts = 10"

definition retryDelay :: nat where
  "retryDelay = 500"

function connect_attempts ::
  "(nat \<Rightarrow> bool) \<Rightarrow> (nat \<Rightarrow> bool) \<Rightarrow> nat \<Rightarrow> 'j controller \<Rightarrow> action list \<times> 'j controller" where
  "connect_attempts activeProcess accepted attempt s =
     (if attempt \<le> maxAttempts then
        if \<not> activeProcess attempt then ([DebugAborted], s)
        else if accepted attempt then
          ([CreateConnection attempt, DebugConnected attempt, ErrorConnected], on_connect attempt s)
        else
          (case connect_attempts activeProcess accepted (attempt + 1) s of
             (trace, s') \<Rightarrow>
               (CreateConnection attempt # DebugRetry attempt # Delay retryDelay # trace, s'))
      else ([ErrorFailed maxAttempts], s))"
  by pat_completeness auto
termination
  by (relation "measure (\<lambda>(activeProcess, accepted, attempt, s). Suc maxAttempts - attempt)") auto

declare connect_attempts.simps [simp del]

definition connectToGame ::
  "(nat \<Rightarrow> bool) \<Rightarrow> (nat \<Rightarrow> bool) \<Rightarrow> string \<Rightarrow> 'j controller \<Rightarrow> action list \<times> 'j controller" where
  "connectToGame activeProcess accepted path s =
     (case connect_attempts activeProcess accepted 1 (s\<lparr>projectPath := Some path\<rparr>) of
        (trace, s') \<Rightarrow> (Delay 2000 # trace, s'))"

subsection \<open>Notions used by the claims about the controller\<close>

text \<open>
  A stand-in for \<^verbatim>\<open>JSON.parse\<close> on the texts used in the examples: it accepts the text
  \<^verbatim>\<open>{}\<close>, whose value is represented by the text itself, and rejects every other text, as
  \<^verbatim>\<open>JSON.parse\<close> rejects \<^verbatim>\<open>oops\<close>.
\<close>

definition parse_empty_object :: "jsstring \<Rightarrow> jsstring option" where
  "parse_empty_object line = (if line = [0x7B, 0x7D] then Some line else None)"


text \<open>
  A call is outstanding when its resolver is the Pending Request, its timer is armed and
  its promise has not been settled; it is retired when it is neither pending nor timed.
  \<open>outcomes_of\<close> lists what the promise of a call has been resolved or rejected with.
\<close>

definition outstanding :: "nat \<Rightarrow> 'j controller \<Rightarrow> bool" where
  "outstanding call s =
     (pendingResolve s = Some call \<and> call \<in> fst ` set (timers s)
      \<and> call \<notin> fst ` set (completions s) \<and> call < calls s)"

definition retired :: "nat \<Rightarrow> 'j controller \<Rightarrow> bool" where
  "retired call s =
     (pendingResolve s \<noteq> Some call \<and> call \<notin> fst ` set (timers s) \<and> call < calls s)"

definition outcomes_of :: "nat \<Rightarrow> 'j controller \<Rightarrow> 'j outcome list" where
  "outcomes_of call s = map snd (filter (\<lambda>c. fst c = call) (completions s))"

text \<open>The text after the last newline of a text: its unterminated last line.\<close>

definition after_last_newline :: "jsstring \<Rightarrow> jsstring" where
  "after_last_newline t = rev (takeWhile (\<lambda>u. u \<noteq> 0x0A) (rev t))"

section \<open>Theorems: value codec\<close>

lemmas codec_defs = json_to_variant_def match_type_hint_def auto_detect_def
  hint_Vector2_def hint_Vector2i_def hint_Vector3_def hint_Vector3i_def hint_Color_def
  hint_Quaternion_def hint_Rect2_def hint_AABB_def hint_Basis_def hint_Transform3D_def
  hint_Transform2D_def float2_def float3_def get_float_def get_int_def on_ok_def
  as_dictionary_def to_float_def to_int_def dict_get_def dict_has_def dict_size_def
  xy_dict_def xyz_dict_def IDENTITY_def















lemma on_ok_simps:
  "on_ok (Inr x) f = f x" "on_ok (Inl e) f = Inl e"
  by (simp_all add: on_ok_def)

lemma to_float_simps:
  "to_float sf (VFloat r) = Inr r"
  "to_float sf (VInt i) = Inr (real_of_int (sint i))"
  by (simp_all add: to_float_def)

lemma to_int_simps:
  "to_int si (VInt i) = Inr i"
  by (simp_all add: to_int_def)

lemma as_dictionary_simps:
  "as_dictionary (VDictionary d) = Inr d"
  by (simp_all add: as_dictionary_def)



lemma dict_get_Cons:
  "dict_get ((VString k, v) # d) k' dflt = (if k' = k then v else dict_get d k' dflt)"
  "dict_get [] k' dflt = dflt"
  by (simp_all add: dict_get_def)

lemmas hint_defs = json_to_variant_def match_type_hint_def
  hint_Vector2_def hint_Vector2i_def hint_Vector3_def hint_Vector3i_def hint_Color_def
  hint_Quaternion_def hint_Rect2_def hint_AABB_def hint_Basis_def hint_Transform3D_def
  hint_Transform2D_def float2_def float3_def get_float_def get_int_def

lemmas leaf_simps = on_ok_simps to_float_simps to_int_simps as_dictionary_simps dict_get_Cons
  xy_dict_def xyz_dict_def IDENTITY_def dict_size_def


lemma dict_has_iff: "dict_has d k \<longleftrightarrow> VString k \<in> fst ` set d"
  by (simp add: dict_has_def map_of_eq_None_iff)

lemma dict_size_card: "dict_size d = card (fst ` set d)"
  by (simp add: dict_size_def length_remdups_card_conv)

lemma exactly_x_y:
  "dict_has d ''x'' \<and> dict_has d ''y'' \<and> dict_size d = 2 \<longleftrightarrow>
   fst ` set d = {VString ''x'', VString ''y''}"
proof
  assume a: "dict_has d ''x'' \<and> dict_has d ''y'' \<and> dict_size d = 2"
  then have sub: "{VString ''x'', VString ''y''} \<subseteq> fst ` set d"
    by (simp add: dict_has_iff)
  have "card {VString ''x'', VString ''y''} = card (fst ` set d)"
    using a by (simp add: dict_size_card)
  with sub have "{VString ''x'', VString ''y''} = fst ` set d"
    by (intro card_subset_eq) simp_all
  then show "fst ` set d = {VString ''x'', VString ''y''}" by simp
next
  assume "fst ` set d = {VString ''x'', VString ''y''}"
  then show "dict_has d ''x'' \<and> dict_has d ''y'' \<and> dict_size d = 2"
    by (simp add: dict_has_iff dict_size_card)
qed

lemma dict_get_present: "dict_has d k \<Longrightarrow> dict_get d k a = dict_get d k b"
  by (auto simp add: dict_has_def dict_get_def)

lemma as_dictionary_cases:
  "(\<exists>p. v = VDictionary p) \<or> (as_dictionary v = Inl RuntimeError \<and> \<not> has_z_field v)"
  by (cases v) (simp_all add: as_dictionary_def has_z_field_def)

lemma rect_or_box:
  assumes "dict_has d ''position''" "dict_has d ''size''"
  shows "on_ok (as_dictionary (dict_get d ''position'' VNil)) (\<lambda>pos_dict.
         on_ok (as_dictionary (dict_get d ''size'' VNil)) (\<lambda>size_dict.
         if dict_has pos_dict ''z'' \<or> dict_has size_dict ''z''
         then hint_AABB sf d else hint_Rect2 sf d)) =
         (if has_z_field (dict_get d ''position'' VNil) \<or> has_z_field (dict_get d ''size'' VNil)
          then hint_AABB sf d else hint_Rect2 sf d)"
proof -
  have p: "dict_get d ''position'' (xy_dict 0 0) = dict_get d ''position'' VNil"
     "dict_get d ''position'' (xyz_dict 0 0 0) = dict_get d ''position'' VNil"
     "dict_get d ''size'' (xy_dict 0 0) = dict_get d ''size'' VNil"
     "dict_get d ''size'' (xyz_dict 0 0 0) = dict_get d ''size'' VNil"
    using assms by (auto simp add: dict_has_def dict_get_def)
  show ?thesis
  proof (cases "\<exists>pd. dict_get d ''position'' VNil = VDictionary pd")
    case True
    then obtain pd where pd: "dict_get d ''position'' VNil = VDictionary pd" by blast
    show ?thesis
    proof (cases "\<exists>sd. dict_get d ''size'' VNil = VDictionary sd")
      case True
      then obtain sd where sd: "dict_get d ''size'' VNil = VDictionary sd" by blast
      show ?thesis
        by (simp add: pd sd on_ok_simps as_dictionary_simps has_z_field_def)
    next
      case False
      then have e: "as_dictionary (dict_get d ''size'' VNil) = Inl RuntimeError"
        "\<not> has_z_field (dict_get d ''size'' VNil)"
        using as_dictionary_cases [of "dict_get d ''size'' VNil"] by simp_all
      show ?thesis
        by (simp add: pd e p on_ok_simps as_dictionary_simps hint_AABB_def hint_Rect2_def)
    qed
  next
    case False
    then have e: "as_dictionary (dict_get d ''position'' VNil) = Inl RuntimeError"
      "\<not> has_z_field (dict_get d ''position'' VNil)"
      using as_dictionary_cases [of "dict_get d ''position'' VNil"] by simp_all
    show ?thesis
      by (simp add: e p on_ok_simps hint_AABB_def hint_Rect2_def)
  qed
qed

lemma auto_detect_refines:
  "json_to_variant sf si (VDictionary d) [] = spec_decode_shape sf si (spec_shape d) d"
proof -
  let ?T = "dict_has d ''basis'' \<and> dict_has d ''origin''"
  let ?C = "dict_has d ''r'' \<and> dict_has d ''g'' \<and> dict_has d ''b''"
  let ?Q = "dict_has d ''x'' \<and> dict_has d ''y'' \<and> dict_has d ''z'' \<and> dict_has d ''w''"
  let ?R = "dict_has d ''position'' \<and> dict_has d ''size''"
  let ?V3 = "dict_has d ''x'' \<and> dict_has d ''y'' \<and> dict_has d ''z''"
  let ?V2 = "dict_has d ''x'' \<and> dict_has d ''y'' \<and> dict_size d = 2"
  have top: "json_to_variant sf si (VDictionary d) [] = auto_detect sf d"
    by (simp add: json_to_variant_def match_type_hint_def)
  have hinted: "json_to_variant sf si (VDictionary d) ''Transform3D'' = hint_Transform3D sf d"
    "json_to_variant sf si (VDictionary d) ''Color'' = hint_Color sf d"
    "json_to_variant sf si (VDictionary d) ''Quaternion'' = hint_Quaternion sf d"
    "json_to_variant sf si (VDictionary d) ''AABB'' = hint_AABB sf d"
    "json_to_variant sf si (VDictionary d) ''Rect2'' = hint_Rect2 sf d"
    "json_to_variant sf si (VDictionary d) ''Vector3'' = hint_Vector3 sf d"
    "json_to_variant sf si (VDictionary d) ''Vector2'' = hint_Vector2 sf d"
    by (simp_all add: json_to_variant_def match_type_hint_def)
  show ?thesis
  proof (cases ?T)
    case True
    then show ?thesis
      by (simp add: top hinted auto_detect_def spec_shape_def spec_decode_shape_def)
  next
    case nT: False
    show ?thesis
    proof (cases ?C)
      case True
      show ?thesis
        by (simp add: nT True top hinted auto_detect_def spec_shape_def spec_decode_shape_def hint_Color_def)
    next
      case nC: False
      show ?thesis
      proof (cases ?Q)
        case True
        show ?thesis
          by (simp add: nT nC True top hinted auto_detect_def spec_shape_def spec_decode_shape_def
              hint_Quaternion_def)
      next
        case nQ: False
        show ?thesis
        proof (cases ?R)
          case True
          then have r: "dict_has d ''position''" "dict_has d ''size''" by simp_all
          have "auto_detect sf d =
                (if has_z_field (dict_get d ''position'' VNil) \<or> has_z_field (dict_get d ''size'' VNil)
                 then hint_AABB sf d else hint_Rect2 sf d)"
            by (simp add: nT nC nQ True rect_or_box [OF r, of sf] auto_detect_def)
          then show ?thesis
            by (simp add: nT nC nQ True top hinted spec_shape_def spec_decode_shape_def)
        next
          case nR: False
          show ?thesis
          proof (cases ?V3)
            case True
            with nQ have nw: "\<not> dict_has d ''w''" by simp
            show ?thesis
              by (simp add: nT nC nw nR True top hinted auto_detect_def spec_shape_def
                  spec_decode_shape_def hint_Vector3_def)
          next
            case nV3: False
            show ?thesis
            proof (cases ?V2)
              case True
              then have e: "fst ` set d = {VString ''x'', VString ''y''}"
                using exactly_x_y [of d] by blast
              from True nV3 have nz: "\<not> dict_has d ''z''" by simp
              show ?thesis
                by (simp add: nT nC nz nR True e top hinted auto_detect_def spec_shape_def
                    spec_decode_shape_def hint_Vector2_def)
            next
              case False
              then have e: "fst ` set d \<noteq> {VString ''x'', VString ''y''}"
                using exactly_x_y [of d] by blast
              show ?thesis
                by (simp add: nT nC nQ nR nV3 False e top hinted auto_detect_def spec_shape_def
                    spec_decode_shape_def)
            qed
          qed
        qed
      qed
    qed
  qed
qed

lemma xyzw_shape:
  "fst ` set d = {VString ''x'', VString ''y'', VString ''z'', VString ''w''} \<Longrightarrow>
   spec_shape d = QuaternionShaped"
  by (simp add: spec_shape_def dict_has_iff)

lemma xyzw_example:
  "json_to_variant sf si
     (VDictionary [(VString ''x'', VFloat a), (VString ''y'', VFloat b), (VString ''z'', VFloat c),
                   (VString ''w'', VFloat e)]) [] = Inr (VQuaternion (Quaternion a b c e))"
  by (simp add: codec_defs)


text \<open>
  Claim C4. A plain object decoded without a type hint is decoded by its shape, and the
  shape is chosen in the fixed order transform (\<open>basis\<close> and \<open>origin\<close>), color (\<open>r\<close>, \<open>g\<close>,
  \<open>b\<close>), quaternion (\<open>x\<close>, \<open>y\<close>, \<open>z\<close>, \<open>w\<close>), box or rectangle (\<open>position\<close> and \<open>size\<close>; a
  box iff one of the two has a field \<open>z\<close>), 3-vector (\<open>x\<close>, \<open>y\<close>, \<open>z\<close>), 2-vector (exactly the
  keys \<open>x\<close>, \<open>y\<close>), and otherwise the object is passed through. An object with exactly the
  keys \<open>x\<close>, \<open>y\<close>, \<open>z\<close>, \<open>w\<close> is a quaternion, not a 3-vector. The decoder being a function of
  the object, the result is the same whenever the object is.
\<close>

theorem C4_auto_detect_precedence:
  "json_to_variant sf si (VDictionary d) [] = spec_decode_shape sf si (spec_shape d) d
   \<and> (fst ` set d = {VString ''x'', VString ''y'', VString ''z'', VString ''w''} \<longrightarrow>
        spec_shape d = QuaternionShaped)
   \<and> json_to_variant sf si
        (VDictionary [(VString ''x'', VFloat a), (VString ''y'', VFloat b), (VString ''z'', VFloat c),
                      (VString ''w'', VFloat e)]) [] = Inr (VQuaternion (Quaternion a b c e))"
  by (intro conjI impI) (rule auto_detect_refines, erule xyzw_shape, rule xyzw_example)

theorem C4_auto_detect_precedence_witness:
  "fst ` set [(VString ''w'', VInt 1), (VString ''x'', VInt 0), (VString ''y'', VFloat 2),
              (VString ''z'', VInt 3)]
     = {VString ''x'', VString ''y'', VString ''z'', VString ''w''}
   \<and> spec_shape [(VString ''w'', VInt 1), (VString ''x'', VInt 0), (VString ''y'', VFloat 2),
                 (VString ''z'', VInt 3)] = QuaternionShaped
   \<and> json_to_variant (\<lambda>s. 0) (\<lambda>s. 0)
        (VDictionary [(VString ''w'', VInt 1), (VString ''x'', VInt 0), (VString ''y'', VFloat 2),
                      (VString ''z'', VInt 3)]) []
      = Inr (VQuaternion (Quaternion 0 2 3 1))"
proof -
  let ?d = "[(VString ''w'', VInt 1), (VString ''x'', VInt 0), (VString ''y'', VFloat 2),
             (VString ''z'', VInt 3)]"
  note t = C4_auto_detect_precedence [of "\<lambda>s. 0" "\<lambda>s. 0" ?d]
  have k: "fst ` set ?d = {VString ''x'', VString ''y'', VString ''z'', VString ''w''}"
    by auto
  from t k have s: "spec_shape ?d = QuaternionShaped"
    by blast
  from t have "json_to_variant (\<lambda>s. 0) (\<lambda>s. 0) (VDictionary ?d) []
               = spec_decode_shape (\<lambda>s. 0) (\<lambda>s. 0) (spec_shape ?d) ?d"
    by blast
  then have "json_to_variant (\<lambda>s. 0) (\<lambda>s. 0) (VDictionary ?d) []
             = Inr (VQuaternion (Quaternion 0 2 3 1))"
    by (simp add: s spec_decode_shape_def hint_defs leaf_simps)
  with k s show ?thesis
    by simp
qed

section \<open>Theorems: command dispatcher of the agent\<close>

lemma handle_command_busy:
  assumes "busy s" and "client s = Some c"
  shows "handle_command parse handlers s line = s\<lparr>sent := sent s @ [(c, busy_response)]\<rparr>"
  using assms by (simp add: handle_command_def send_response_raw_def)

lemma process_frame_await:
  "suspended s = Some (AwaitFrame k) \<Longrightarrow> process_frame s = s\<lparr>suspended := Some k\<rparr>"
  by (simp add: process_frame_def)

lemma process_frame_respond:
  "suspended s = Some (Respond data) \<Longrightarrow> client s = Some c \<Longrightarrow>
   process_frame s = s\<lparr>suspended := None, busy := False, sent := sent s @ [(c, data)]\<rparr>"
  by (simp add: process_frame_def send_response_def send_response_raw_def)

lemma frames_complete:
  "completes k = Some (n, data) \<Longrightarrow> suspended s = Some k \<Longrightarrow> client s = Some c \<Longrightarrow>
   (process_frame ^^ Suc n) s = s\<lparr>suspended := None, busy := False, sent := sent s @ [(c, data)]\<rparr>"
proof (induction k arbitrary: s n)
  case (Respond x)
  then show ?case
    by (simp add: process_frame_respond)
next
  case (AwaitFrame k)
  from AwaitFrame.prems(1) obtain m where m: "completes k = Some (m, data)" and n: "n = Suc m"
    by auto
  let ?s = "s\<lparr>suspended := Some k\<rparr>"
  have "(process_frame ^^ Suc n) s = (process_frame ^^ Suc m) (process_frame s)"
    unfolding n by (simp only: funpow_Suc_right o_apply)
  also have "process_frame s = ?s"
    using AwaitFrame.prems(2) by (rule process_frame_await)
  also have "(process_frame ^^ Suc m) ?s
             = ?s\<lparr>suspended := None, busy := False, sent := sent ?s @ [(c, data)]\<rparr>"
    using AwaitFrame.prems(3) by (intro AwaitFrame.IH [OF m]) simp_all
  finally show ?case
    by simp
next
  case NoResponse
  then show ?case
    by simp
qed

lemma takeWhile_until: "c \<notin> set l \<Longrightarrow> takeWhile (\<lambda>u. u \<noteq> c) (l @ c # rest) = l"
  by (induction l) auto

lemma find_newline_first:
  "CHR 0x0A \<notin> set l \<Longrightarrow> find_newline (l @ CHR 0x0A # rest) = int (length l)"
  by (simp add: find_newline_def takeWhile_until)

lemma process_lines_step:
  assumes "CHR 0x0A \<notin> set l"
  shows "process_lines parse handlers (s\<lparr>buffer := l @ CHR 0x0A # rest\<rparr>)
         = process_lines parse handlers
             (if length (strip_edges l) > 0
              then handle_command parse handlers (s\<lparr>buffer := rest\<rparr>) (strip_edges l)
              else s\<lparr>buffer := rest\<rparr>)"
  by (subst process_lines.simps) (simp add: find_newline_first [OF assms] Let_def)

lemma handle_command_invalid:
  assumes "client s = Some c" and "parse line = Inl msg"
  shows "handle_command parse handlers s line
         = s\<lparr>sent := sent s @ [(c, if busy s then busy_response
                                     else error_response (''Invalid JSON: '' @ msg))]\<rparr>"
  using assms by (simp add: handle_command_def send_response_def send_response_raw_def)

lemma handle_command_not_object:
  assumes "client s = Some c" and "parse line = Inr v" and "\<forall>d. v \<noteq> VDictionary d"
  shows "handle_command parse handlers s line
         = s\<lparr>sent := sent s @ [(c, if busy s then busy_response
                                     else error_response ''Expected JSON object'')]\<rparr>"
  using assms
  by (cases v) (simp_all add: handle_command_def send_response_def send_response_raw_def)

lemma handle_command_buffer:
  "client s = Some c \<Longrightarrow>
   parse line = Inl msg \<or> (parse line = Inr v \<and> (\<forall>d. v \<noteq> VDictionary d)) \<Longrightarrow>
   handle_command parse handlers (s\<lparr>buffer := b\<rparr>) line
   = (handle_command parse handlers s line)\<lparr>buffer := b\<rparr>"
  by (elim disjE conjE)
     (simp_all add: handle_command_invalid [where c = c]
        handle_command_not_object [where c = c and v = v])

subsection \<open>Chunks of text\<close>

text \<open>
  The line loop of the agent does not depend on where the chunks of text end: the text of
  two chunks, received one after the other, is processed as their concatenation is.
\<close>

lemma run_buffer: "run k (s\<lparr>buffer := b\<rparr>) = (run k s)\<lparr>buffer := b\<rparr>"
  by (cases k) (simp_all add: send_response_def send_response_raw_def split: option.splits)

lemma send_response_buffer:
  "send_response (s\<lparr>buffer := b\<rparr>) data = (send_response s data)\<lparr>buffer := b\<rparr>"
  "send_response_raw (s\<lparr>buffer := b\<rparr>) data = (send_response_raw s data)\<lparr>buffer := b\<rparr>"
  by (simp_all add: send_response_def send_response_raw_def split: option.splits)

lemma busy_buffer:
  "send_response (s\<lparr>buffer := b, busy := True\<rparr>) data
   = (send_response (s\<lparr>busy := True\<rparr>) data)\<lparr>buffer := b\<rparr>"
  "run k (s\<lparr>buffer := b, busy := True\<rparr>) = (run k (s\<lparr>busy := True\<rparr>))\<lparr>buffer := b\<rparr>"
  by (cases s; cases k; simp add: send_response_def send_response_raw_def split: option.splits)+

lemma handle_command_buffer_any:
  "handle_command parse handlers (s\<lparr>buffer := b\<rparr>) line
   = (handle_command parse handlers s line)\<lparr>buffer := b\<rparr>"
proof (cases "busy s")
  case True
  then show ?thesis
    by (simp add: handle_command_def send_response_buffer)
next
  case idle: False
  show ?thesis
  proof (cases "parse line")
    case (Inl msg)
    with idle show ?thesis
      by (simp add: handle_command_def busy_buffer)
  next
    case (Inr data)
    show ?thesis
    proof (cases "\<exists>d. data = VDictionary d")
      case False
      with idle Inr show ?thesis
        by (cases data) (simp_all add: handle_command_def busy_buffer)
    next
      case True
      then obtain d where d: "data = VDictionary d"
        by blast
      show ?thesis
      proof (cases "\<exists>command. dict_get d ''command'' (VString []) = VString command")
        case False
        with idle Inr d show ?thesis
          by (cases "dict_get d ''command'' (VString [])") (simp_all add: handle_command_def)
      next
        case True
        then obtain command where c: "dict_get d ''command'' (VString []) = VString command"
          by blast
        show ?thesis
        proof (cases "\<exists>params. dict_get d ''params'' (VDictionary []) = VDictionary params")
          case False
          with idle Inr d c show ?thesis
            by (cases "dict_get d ''params'' (VDictionary [])") (simp_all add: handle_command_def)
        next
          case True
          then obtain params where p: "dict_get d ''params'' (VDictionary []) = VDictionary params"
            by blast
          from idle Inr d c p show ?thesis
            by (simp add: handle_command_def busy_buffer)
        qed
      qed
    qed
  qed
qed

lemma process_lines_done: "CHR 0x0A \<notin> set (buffer s) \<Longrightarrow> process_lines parse handlers s = s"
  by (subst process_lines.simps) (simp add: find_newline_def)

lemma process_lines_append:
  "process_lines parse handlers
     ((process_lines parse handlers s)\<lparr>buffer := buffer (process_lines parse handlers s) @ t\<rparr>)
   = process_lines parse handlers (s\<lparr>buffer := buffer s @ t\<rparr>)"
proof (induction parse handlers s rule: process_lines.induct)
  case (1 parse handlers s)
  show ?case
  proof (cases "CHR 0x0A \<in> set (buffer s)")
    case False
    then show ?thesis
      by (simp add: process_lines_done)
  next
    case True
    then obtain l rest where buf: "buffer s = l @ CHR 0x0A # rest" and l: "CHR 0x0A \<notin> set l"
      by (auto dest: split_list_first)
    let ?after = "\<lambda>s1. if length (strip_edges l) > 0
                       then handle_command parse handlers s1 (strip_edges l) else s1"
    let ?next = "?after (s\<lparr>buffer := rest\<rparr>)"
    have pos: "find_newline (buffer s) \<ge> 0" "nat (find_newline (buffer s)) = length l"
      by (simp_all add: buf find_newline_first l)
    have unfold: "process_lines parse handlers s = process_lines parse handlers ?next"
      using process_lines_step [OF l, where parse = parse and handlers = handlers and s = s
          and rest = rest] by (simp add: buf [symmetric])
    have "process_lines parse handlers (s\<lparr>buffer := buffer s @ t\<rparr>)
          = process_lines parse handlers (?after (s\<lparr>buffer := rest @ t\<rparr>))"
      using process_lines_step [OF l, where parse = parse and handlers = handlers and s = s
          and rest = "rest @ t"] by (simp add: buf)
    also have "?after (s\<lparr>buffer := rest @ t\<rparr>) = ?next\<lparr>buffer := buffer ?next @ t\<rparr>"
      by (simp add: handle_command_buffer_any)
    also have "process_lines parse handlers (?next\<lparr>buffer := buffer ?next @ t\<rparr>)
               = process_lines parse handlers
                   ((process_lines parse handlers ?next)
                      \<lparr>buffer := buffer (process_lines parse handlers ?next) @ t\<rparr>)"
    proof -
      have e: "take (nat (find_newline (buffer s))) (buffer s) = l"
        "drop (nat (find_newline (buffer s)) + 1) (buffer s) = rest"
        by (simp_all add: pos(2)) (simp_all add: buf)
      show ?thesis
        by (rule "1.IH" [OF pos(1) refl refl refl, unfolded e, symmetric])
    qed
    finally show ?thesis
      unfolding unfold by simp
  qed
qed

lemma process_data_text_split:
  "process_data parse handlers (process_data parse handlers s a) b
   = process_data parse handlers s (a @ b)"
  using process_lines_append [where parse = parse and handlers = handlers
      and s = "s\<lparr>buffer := buffer s @ a\<rparr>" and t = b]
  by (simp add: process_data_def)

text \<open>
  Claim C1. In every state of the agent in which the busy flag is set, a command that
  arrives (from the connected client) is answered at once with the busy error, and that
  is all the rejection does: the flag is still set and the handler in progress is
  untouched. A handler in progress that responds with \<open>data\<close> after \<open>n\<close> more awaited frames
  still does so after the rejection, on the same frame and with the same response as
  without it, and clears the flag.
\<close>

theorem C1_busy_rejection:
  assumes "busy s" and "client s = Some c"
  shows "handle_command parse handlers s line = s\<lparr>sent := sent s @ [(c, busy_response)]\<rparr>
         \<and> busy (handle_command parse handlers s line)
         \<and> suspended (handle_command parse handlers s line) = suspended s
         \<and> (suspended s = Some k \<and> completes k = Some (n, data) \<longrightarrow>
              (process_frame ^^ Suc n) s
                = s\<lparr>suspended := None, busy := False, sent := sent s @ [(c, data)]\<rparr>
              \<and> (process_frame ^^ Suc n) (handle_command parse handlers s line)
                = s\<lparr>suspended := None, busy := False,
                     sent := sent s @ [(c, busy_response), (c, data)]\<rparr>)"
proof -
  let ?s = "s\<lparr>sent := sent s @ [(c, busy_response)]\<rparr>"
  have rejected: "handle_command parse handlers s line = ?s"
    using assms by (rule handle_command_busy)
  have "(process_frame ^^ Suc n) s
          = s\<lparr>suspended := None, busy := False, sent := sent s @ [(c, data)]\<rparr>
        \<and> (process_frame ^^ Suc n) ?s
          = s\<lparr>suspended := None, busy := False, sent := sent s @ [(c, busy_response), (c, data)]\<rparr>"
    if k: "suspended s = Some k" "completes k = Some (n, data)"
  proof
    show "(process_frame ^^ Suc n) s
          = s\<lparr>suspended := None, busy := False, sent := sent s @ [(c, data)]\<rparr>"
      using k(2) k(1) assms(2) by (rule frames_complete)
    have "(process_frame ^^ Suc n) ?s
          = ?s\<lparr>suspended := None, busy := False, sent := sent ?s @ [(c, data)]\<rparr>"
      using k(2) by (rule frames_complete) (simp_all add: k(1) assms(2))
    then show "(process_frame ^^ Suc n) ?s
          = s\<lparr>suspended := None, busy := False, sent := sent s @ [(c, busy_response), (c, data)]\<rparr>"
      by simp
  qed
  with rejected assms show ?thesis
    by simp
qed

theorem C1_busy_rejection_witness:
  "busy \<lparr>client = Some 0, buffer = [], busy = True,
         suspended = Some (AwaitFrame (Respond (VDictionary [(VString ''success'', VBool True)]))),
         sent = []\<rparr>
   \<and> completes (AwaitFrame (Respond (VDictionary [(VString ''success'', VBool True)])))
       = Some (1, VDictionary [(VString ''success'', VBool True)])
   \<and> handle_command (\<lambda>l. Inl ''unused'') (\<lambda>command params. NoResponse)
        \<lparr>client = Some 0, buffer = [], busy = True,
         suspended = Some (AwaitFrame (Respond (VDictionary [(VString ''success'', VBool True)]))),
         sent = []\<rparr> ''pause''
       = \<lparr>client = Some 0, buffer = [], busy = True,
          suspended = Some (AwaitFrame (Respond (VDictionary [(VString ''success'', VBool True)]))),
          sent = [(0, busy_response)]\<rparr>
   \<and> (process_frame ^^ 2)
        (handle_command (\<lambda>l. Inl ''unused'') (\<lambda>command params. NoResponse)
          \<lparr>client = Some 0, buffer = [], busy = True,
           suspended = Some (AwaitFrame (Respond (VDictionary [(VString ''success'', VBool True)]))),
           sent = []\<rparr> ''pause'')
       = \<lparr>client = Some 0, buffer = [], busy = False, suspended = None,
          sent = [(0, busy_response), (0, VDictionary [(VString ''success'', VBool True)])]\<rparr>"
proof -
  let ?data = "VDictionary [(VString ''success'', VBool True)]"
  let ?k = "AwaitFrame (Respond ?data)"
  let ?s = "\<lparr>client = Some (0::nat), buffer = [], busy = True, suspended = Some ?k, sent = []\<rparr>"
  let ?h = "handle_command (\<lambda>l. Inl ''unused'') (\<lambda>command params. NoResponse) ?s ''pause''"
  have pre: "busy ?s" "client ?s = Some 0"
    by simp_all
  have k: "suspended ?s = Some ?k \<and> completes ?k = Some (1, ?data)"
    by simp
  note t = C1_busy_rejection [OF pre, of "\<lambda>l. Inl ''unused''" "\<lambda>command params. NoResponse"
      "''pause''" ?k 1 ?data]
  from t have a: "?h = ?s\<lparr>sent := sent ?s @ [(0, busy_response)]\<rparr>"
    by blast
  from t k have b: "(process_frame ^^ Suc 1) ?h
      = ?s\<lparr>suspended := None, busy := False, sent := sent ?s @ [(0, busy_response), (0, ?data)]\<rparr>"
    by blast
  from b have b': "(process_frame ^^ Suc 1) ?h
      = \<lparr>client = Some 0, buffer = [], busy = False, suspended = None,
         sent = [(0, busy_response), (0, ?data)]\<rparr>"
    by simp
  have two: "(2::nat) = Suc 1"
    by simp
  show ?thesis
    unfolding two
    by (intro conjI) (simp, simp, simp add: a, rule b')
qed

text \<open>
  Claim C8. A framed message that is not valid JSON, or whose top-level value is not an
  object, is answered while a client is connected with exactly one response: the busy
  error if a command is in progress, and otherwise a structured error (the parser's
  message, or "Expected JSON object"). Nothing else changes: the busy flag is as it was
  (not set, when no command was in progress). The line loop is not left: it goes on with
  the rest of the buffer.
\<close>

theorem C8_malformed_message:
  assumes "client s = Some c"
    and "parse line = Inl msg \<or> (parse line = Inr v \<and> (\<forall>d. v \<noteq> VDictionary d))"
  shows "handle_command parse handlers s line
           = s\<lparr>sent := sent s @
                 [(c, if busy s then busy_response
                      else case parse line of
                             Inl m \<Rightarrow> error_response (''Invalid JSON: '' @ m)
                           | Inr w \<Rightarrow> error_response ''Expected JSON object'')]\<rparr>
         \<and> busy (handle_command parse handlers s line) = busy s
         \<and> length (sent (handle_command parse handlers s line)) = Suc (length (sent s))
         \<and> (CHR 0x0A \<notin> set l \<and> strip_edges l = line \<and> line \<noteq> [] \<longrightarrow>
              process_lines parse handlers (s\<lparr>buffer := l @ CHR 0x0A # rest\<rparr>)
              = process_lines parse handlers
                  ((handle_command parse handlers s line)\<lparr>buffer := rest\<rparr>))"
proof -
  have one: "handle_command parse handlers s line
           = s\<lparr>sent := sent s @
                 [(c, if busy s then busy_response
                      else case parse line of
                             Inl m \<Rightarrow> error_response (''Invalid JSON: '' @ m)
                           | Inr w \<Rightarrow> error_response ''Expected JSON object'')]\<rparr>"
    using assms(2)
  proof (elim disjE conjE)
    assume "parse line = Inl msg"
    then show ?thesis
      by (simp add: handle_command_invalid [OF assms(1)])
  next
    assume "parse line = Inr v" and "\<forall>d. v \<noteq> VDictionary d"
    then show ?thesis
      by (simp add: handle_command_not_object [OF assms(1)])
  qed
  have loop: "process_lines parse handlers (s\<lparr>buffer := l @ CHR 0x0A # rest\<rparr>)
              = process_lines parse handlers
                  ((handle_command parse handlers s line)\<lparr>buffer := rest\<rparr>)"
    if "CHR 0x0A \<notin> set l" "strip_edges l = line" "line \<noteq> []"
    using that handle_command_buffer [where s = s and b = rest and parse = parse and line = line
        and msg = msg and v = v and c = c and handlers = handlers, OF assms]
    by (simp add: process_lines_step)
  from one loop show ?thesis
    by simp
qed

theorem C8_malformed_message_witness:
  "client \<lparr>client = Some 0, buffer = [], busy = False, suspended = None, sent = []\<rparr> = Some 0
   \<and> (\<lambda>l. if l = ''[1]'' then Inr (VArray [VFloat 1]) else Inl ''Unexpected character'') ''[1]''
       = Inr (VArray [VFloat 1])
   \<and> (\<forall>d. VArray [VFloat 1] \<noteq> VDictionary d)
   \<and> CHR 0x0A \<notin> set '' [1]'' \<and> strip_edges '' [1]'' = ''[1]''
   \<and> handle_command (\<lambda>l. if l = ''[1]'' then Inr (VArray [VFloat 1]) else Inl ''Unexpected character'')
        (\<lambda>command params. NoResponse)
        \<lparr>client = Some 0, buffer = [], busy = False, suspended = None, sent = []\<rparr> ''[1]''
       = \<lparr>client = Some 0, buffer = [], busy = False, suspended = None,
          sent = [(0, error_response ''Expected JSON object'')]\<rparr>
   \<and> process_lines (\<lambda>l. if l = ''[1]'' then Inr (VArray [VFloat 1]) else Inl ''Unexpected character'')
        (\<lambda>command params. NoResponse)
        \<lparr>client = Some 0, buffer = '' [1]'' @ CHR 0x0A # ''{'', busy = False, suspended = None,
         sent = []\<rparr>
       = \<lparr>client = Some 0, buffer = ''{'', busy = False, suspended = None,
          sent = [(0, error_response ''Expected JSON object'')]\<rparr>"
proof -
  let ?parse = "\<lambda>l. if l = ''[1]'' then Inr (VArray [VFloat 1]) else Inl ''Unexpected character''"
  let ?s = "\<lparr>client = Some 0, buffer = [], busy = False, suspended = None, sent = []\<rparr>"
  have strip: "strip_edges '' [1]'' = ''[1]''"
    by (simp add: strip_edges_def)
  have rest: "process_lines ?parse (\<lambda>command params. NoResponse)
                \<lparr>client = Some 0, buffer = ''{'', busy = False, suspended = None,
                 sent = [(0, error_response ''Expected JSON object'')]\<rparr>
              = \<lparr>client = Some 0, buffer = ''{'', busy = False, suspended = None,
                 sent = [(0, error_response ''Expected JSON object'')]\<rparr>"
    by (subst process_lines.simps) (simp add: find_newline_def)
  show ?thesis
    using C8_malformed_message
      [of ?s 0 ?parse "''[1]''" "''Unexpected character''" "VArray [VFloat 1]"
          "\<lambda>command params. NoResponse" "'' [1]''" "''{''"]
    by (simp add: strip rest)
qed

section \<open>Theorems: connection manager and request correlator\<close>

subsection \<open>The line loop\<close>

lemma drain_done: "0x0A \<notin> set (responseBuffer s) \<Longrightarrow> drain parse s = s"
  by (subst drain.simps) simp

lemma indexOf_first: "c \<notin> set l \<Longrightarrow> indexOf (l @ c # rest) c = int (length l)"
  by (simp add: indexOf_def takeWhile_until)

lemma drain_line:
  assumes "0x0A \<notin> set l" and "responseBuffer s = l @ 0x0A # rest"
  shows "drain parse s =
         drain parse
           (let s1 = s\<lparr>responseBuffer := rest\<rparr> in
            case pendingResolve s of
              Some call \<Rightarrow>
                if trim l \<noteq> [] then
                  (case parse (trim l) of
                     Some parsed \<Rightarrow> resolver call (Parsed parsed) (s1\<lparr>pendingResolve := None\<rparr>)
                   | None \<Rightarrow> s1\<lparr>debug_log := debug_log s @ [ParseFailed (trim l)]\<rparr>)
                else s1
            | None \<Rightarrow> s1)"
  by (subst drain.simps) (simp add: assms indexOf_first Let_def split: option.splits)

lemma drain_idle:
  "pendingResolve s = None \<Longrightarrow>
   drain parse s = s\<lparr>responseBuffer := responseBuffer (drain parse s)\<rparr>"
proof (induction parse s rule: drain.induct)
  case (1 parse s)
  show ?case
  proof (cases "0x0A \<in> set (responseBuffer s)")
    case False
    then show ?thesis
      by (simp add: drain_done)
  next
    case True
    let ?n = "nat (indexOf (responseBuffer s) 0x0A)"
    let ?s1 = "s\<lparr>responseBuffer := drop (?n + 1) (responseBuffer s)\<rparr>"
    have unfold: "drain parse s = drain parse ?s1"
      using "1.prems" True by (subst drain.simps) (simp add: Let_def)
    have "drain parse ?s1 = ?s1\<lparr>responseBuffer := responseBuffer (drain parse ?s1)\<rparr>"
      using "1.IH" [OF True refl refl refl] "1.prems" by simp
    then show ?thesis
      unfolding unfold by simp
  qed
qed

lemma on_data_idle:
  "pendingResolve s = None \<Longrightarrow>
   on_data parse data s = s\<lparr>responseBuffer := responseBuffer (on_data parse data s)\<rparr>"
  using drain_idle [of "s\<lparr>responseBuffer := responseBuffer s @ toString data\<rparr>" parse]
  by (simp add: on_data_def)

subsection \<open>A retired call stays settled as it is\<close>

lemma resolver_retired:
  assumes "retired call s" and "call' \<noteq> call"
  shows "retired call ((resolver call' r s)\<lparr>pendingResolve := None\<rparr>)"
    and "outcomes_of call ((resolver call' r s)\<lparr>pendingResolve := None\<rparr>) = outcomes_of call s"
  using assms by (auto simp add: retired_def outcomes_of_def resolver_def clearTimeout_def Let_def)

lemma drain_retired:
  "retired call s \<Longrightarrow>
   retired call (drain parse s) \<and> outcomes_of call (drain parse s) = outcomes_of call s"
proof (induction parse s rule: drain.induct)
  case (1 parse s)
  show ?case
  proof (cases "0x0A \<in> set (responseBuffer s)")
    case False
    with "1.prems" show ?thesis
      by (simp add: drain_done)
  next
    case True
    let ?n = "nat (indexOf (responseBuffer s) 0x0A)"
    let ?line = "trim (take ?n (responseBuffer s))"
    let ?s1 = "s\<lparr>responseBuffer := drop (?n + 1) (responseBuffer s)\<rparr>"
    let ?next = "case pendingResolve ?s1 of
                   Some c \<Rightarrow>
                     if length ?line > 0 then
                       (case parse ?line of
                          Some parsed \<Rightarrow> resolver c (Parsed parsed) (?s1\<lparr>pendingResolve := None\<rparr>)
                        | None \<Rightarrow> ?s1\<lparr>debug_log := debug_log ?s1 @ [ParseFailed ?line]\<rparr>)
                     else ?s1
                 | None \<Rightarrow> ?s1"
    have unfold: "drain parse s = drain parse ?next"
      using True by (subst drain.simps) (simp add: Let_def split: option.splits)
    have nxt: "retired call ?next \<and> outcomes_of call ?next = outcomes_of call s"
      using "1.prems"
      by (auto simp add: retired_def outcomes_of_def resolver_def clearTimeout_def Let_def
          split: option.splits)
    then have "retired call (drain parse ?next)
               \<and> outcomes_of call (drain parse ?next) = outcomes_of call ?next"
      using "1.IH" [OF True refl refl refl] by blast
    with nxt show ?thesis
      unfolding unfold by simp
  qed
qed

lemma step_retired:
  assumes "retired call s"
  shows "retired call (step parse s ev) \<and> outcomes_of call (step parse s ev) = outcomes_of call s"
proof (cases ev)
  case (Data data)
  have "retired call (s\<lparr>responseBuffer := responseBuffer s @ toString data\<rparr>)"
    using assms by (simp add: retired_def)
  from drain_retired [OF this, of parse] show ?thesis
    by (simp add: Data on_data_def outcomes_of_def)
next
  case Close
  with assms show ?thesis
    by (auto simp add: on_close_def retired_def outcomes_of_def resolver_def clearTimeout_def
        Let_def split: option.splits)
next
  case Error
  with assms show ?thesis
    by (simp add: on_error_def retired_def outcomes_of_def)
next
  case (Timeout c)
  with assms show ?thesis
    by (auto simp add: on_timeout_def retired_def outcomes_of_def clearTimeout_def image_iff
        split: option.splits dest!: map_of_SomeD)
next
  case (Send command params timeoutMs)
  with assms show ?thesis
    by (auto simp add: sendGameCommand_def retired_def outcomes_of_def Let_def
        split: option.splits)
next
  case Disconnect
  with assms show ?thesis
    by (auto simp add: disconnectFromGame_def retired_def outcomes_of_def resolver_def
        clearTimeout_def Let_def split: option.splits)
next
  case (Connect sock)
  with assms show ?thesis
    by (simp add: on_connect_def retired_def outcomes_of_def)
qed

lemma steps_retired:
  "retired call s \<Longrightarrow> outcomes_of call (steps parse s evs) = outcomes_of call s"
proof (induction evs arbitrary: s)
  case Nil
  show ?case
    by (simp add: steps_def)
next
  case (Cons ev evs)
  from step_retired [OF Cons.prems, of parse ev]
  have "retired call (step parse s ev)"
    and same: "outcomes_of call (step parse s ev) = outcomes_of call s"
    by simp_all
  from Cons.IH [OF this(1)] same show ?case
    by (simp add: steps_def)
qed

subsection \<open>What settles an outstanding call\<close>

lemma on_close_outstanding:
  assumes "outstanding call s"
  shows "retired call (on_close s)"
    and "outcomes_of call (on_close s) = [Resolve (ErrorObject ''Connection closed'')]"
    and "\<not> connected (on_close s)" and "socket (on_close s) = None"
    and "pendingResolve (on_close s) = None"
  using assms
  by (auto simp add: outstanding_def retired_def outcomes_of_def on_close_def resolver_def
      clearTimeout_def Let_def filter_empty_conv image_iff)

lemma on_timeout_outstanding:
  assumes "outstanding call s" and "map_of (timers s) call = Some (command, timeoutMs)"
  shows "retired call (on_timeout call s)"
    and "outcomes_of call (on_timeout call s) = [Reject (TimedOut command timeoutMs)]"
    and "completions (on_timeout call s) = completions s @ [(call, Reject (TimedOut command timeoutMs))]"
    and "pendingResolve (on_timeout call s) = None"
  using assms
  by (auto simp add: outstanding_def retired_def outcomes_of_def on_timeout_def
      clearTimeout_def filter_empty_conv image_iff)

lemma steps_Cons: "steps parse s (ev # evs) = steps parse (step parse s ev) evs"
  by (simp add: steps_def)

subsection \<open>What the line loop leaves in the buffer\<close>

lemma after_last_newline_line:
  "after_last_newline (l @ 0x0A # rest) = after_last_newline rest"
  by (simp add: after_last_newline_def takeWhile_tail)

lemma after_last_newline_none: "0x0A \<notin> set b \<Longrightarrow> after_last_newline b = b"
proof -
  assume "0x0A \<notin> set b"
  then have eq: "takeWhile (\<lambda>u. u \<noteq> 0x0A) (rev b) = rev b"
    by (intro takeWhile_eq_all_conv [THEN iffD2]) auto
  show ?thesis
    unfolding after_last_newline_def eq by simp
qed

lemma takeWhile_append_takeWhile:
  "takeWhile P (xs @ takeWhile P ys) = takeWhile P (xs @ ys)"
  by (induction xs) auto

lemma after_last_newline_append:
  "after_last_newline (after_last_newline a @ r) = after_last_newline (a @ r)"
  by (simp add: after_last_newline_def takeWhile_append_takeWhile)

lemma drain_buffer: "responseBuffer (drain parse s) = after_last_newline (responseBuffer s)"
proof (induction parse s rule: drain.induct)
  case (1 parse s)
  show ?case
  proof (cases "0x0A \<in> set (responseBuffer s)")
    case False
    then show ?thesis
      by (simp add: drain_done after_last_newline_none)
  next
    case True
    then obtain l rest where buf: "responseBuffer s = l @ 0x0A # rest" and l: "0x0A \<notin> set l"
      by (auto dest: split_list_first)
    let ?n = "nat (indexOf (responseBuffer s) 0x0A)"
    let ?line = "trim (take ?n (responseBuffer s))"
    let ?s1 = "s\<lparr>responseBuffer := drop (?n + 1) (responseBuffer s)\<rparr>"
    let ?next = "case pendingResolve ?s1 of
                   Some c \<Rightarrow>
                     if length ?line > 0 then
                       (case parse ?line of
                          Some parsed \<Rightarrow> resolver c (Parsed parsed) (?s1\<lparr>pendingResolve := None\<rparr>)
                        | None \<Rightarrow> ?s1\<lparr>debug_log := debug_log ?s1 @ [ParseFailed ?line]\<rparr>)
                     else ?s1
                 | None \<Rightarrow> ?s1"
    have unfold: "drain parse s = drain parse ?next"
      using True by (subst drain.simps) (simp add: Let_def split: option.splits)
    have "responseBuffer ?next = rest"
      by (simp add: buf indexOf_first l resolver_def clearTimeout_def Let_def split: option.splits)
    moreover have "responseBuffer (drain parse ?next) = after_last_newline (responseBuffer ?next)"
      using "1.IH" [OF True refl refl refl] .
    ultimately show ?thesis
      unfolding unfold by (simp add: buf after_last_newline_line)
  qed
qed

lemma on_data_idle_buffer:
  assumes "pendingResolve s = None"
  shows "on_data parse data s
         = s\<lparr>responseBuffer := after_last_newline (responseBuffer s @ toString data)\<rparr>"
proof -
  have "on_data parse data s = s\<lparr>responseBuffer := responseBuffer (on_data parse data s)\<rparr>"
    using assms by (rule on_data_idle)
  moreover have "responseBuffer (on_data parse data s)
                 = after_last_newline (responseBuffer s @ toString data)"
    by (simp add: on_data_def drain_buffer)
  ultimately show ?thesis
    by simp
qed

lemma steps_data_idle_buffer:
  "pendingResolve s = None \<Longrightarrow>
   steps parse s (map Data (chunk # chunks))
   = s\<lparr>responseBuffer :=
         after_last_newline (responseBuffer s @ concat (map toString (chunk # chunks)))\<rparr>"
proof (induction chunks arbitrary: chunk s)
  case Nil
  then show ?case
    by (simp add: steps_def on_data_idle_buffer)
next
  case (Cons c chunks)
  let ?s = "s\<lparr>responseBuffer := after_last_newline (responseBuffer s @ toString chunk)\<rparr>"
  have first: "on_data parse chunk s = ?s"
    using Cons.prems by (rule on_data_idle_buffer)
  have "pendingResolve ?s = None"
    using Cons.prems by simp
  from Cons.IH [OF this, of c]
  have "steps parse ?s (map Data (c # chunks))
        = ?s\<lparr>responseBuffer :=
               after_last_newline (responseBuffer ?s @ concat (map toString (c # chunks)))\<rparr>" .
  then show ?case
    by (simp add: steps_Cons first after_last_newline_append)
qed

lemma steps_data_idle:
  "pendingResolve s = None \<Longrightarrow>
   steps parse s (map Data chunks)
   = s\<lparr>responseBuffer := responseBuffer (steps parse s (map Data chunks))\<rparr>"
proof (induction chunks arbitrary: s)
  case Nil
  show ?case
    by (simp add: steps_def)
next
  case (Cons data chunks)
  let ?s = "on_data parse data s"
  have s: "?s = s\<lparr>responseBuffer := responseBuffer ?s\<rparr>"
    using Cons.prems by (rule on_data_idle)
  then have "pendingResolve ?s = None"
    using Cons.prems by (metis controller.select_convs(4) controller.surjective controller.update_convs(3))
  from Cons.IH [OF this]
  have "steps parse ?s (map Data chunks)
        = ?s\<lparr>responseBuffer := responseBuffer (steps parse ?s (map Data chunks))\<rparr>" .
  also have "\<dots> = s\<lparr>responseBuffer := responseBuffer (steps parse ?s (map Data chunks))\<rparr>"
    by (subst s) simp
  finally show ?case
    by (simp add: steps_Cons)
qed

subsection \<open>Chunks of text\<close>

text \<open>
  On the text of the chunks the line loop does not depend on where the chunks end:
  appending a text to the buffer that the loop has left gives what the loop gives on the
  buffer with the text appended at once. So two chunks give what their concatenation
  gives whenever decoding them one by one gives the text of the whole, as it does when
  all bytes are ASCII.
\<close>

lemma drain_append:
  "drain parse ((drain parse s)\<lparr>responseBuffer := responseBuffer (drain parse s) @ t\<rparr>)
   = drain parse (s\<lparr>responseBuffer := responseBuffer s @ t\<rparr>)"
proof (induction parse s rule: drain.induct)
  case (1 parse s)
  show ?case
  proof (cases "0x0A \<in> set (responseBuffer s)")
    case False
    then show ?thesis
      by (simp add: drain_done)
  next
    case True
    then obtain l rest where buf: "responseBuffer s = l @ 0x0A # rest" and l: "0x0A \<notin> set l"
      by (auto dest: split_list_first)
    let ?n = "nat (indexOf (responseBuffer s) 0x0A)"
    let ?line = "trim (take ?n (responseBuffer s))"
    let ?s1 = "s\<lparr>responseBuffer := drop (?n + 1) (responseBuffer s)\<rparr>"
    let ?next = "case pendingResolve ?s1 of
                   Some c \<Rightarrow>
                     if length ?line > 0 then
                       (case parse ?line of
                          Some parsed \<Rightarrow> resolver c (Parsed parsed) (?s1\<lparr>pendingResolve := None\<rparr>)
                        | None \<Rightarrow> ?s1\<lparr>debug_log := debug_log ?s1 @ [ParseFailed ?line]\<rparr>)
                     else ?s1
                 | None \<Rightarrow> ?s1"
    let ?st = "s\<lparr>responseBuffer := responseBuffer s @ t\<rparr>"
    have unfold: "drain parse s = drain parse ?next"
      using True by (subst drain.simps) (simp add: Let_def split: option.splits)
    have n: "?n = length l"
      by (simp add: buf indexOf_first l)
    have "drain parse ?st = drain parse (?next\<lparr>responseBuffer := responseBuffer ?next @ t\<rparr>)"
      using l buf n
      by (subst drain_line [where l = l and rest = "rest @ t"]; cases s;
          simp add: Let_def resolver_def clearTimeout_def split: option.splits)
    also have "\<dots> = drain parse
        ((drain parse ?next)\<lparr>responseBuffer := responseBuffer (drain parse ?next) @ t\<rparr>)"
      using "1.IH" [OF True refl refl refl] by simp
    finally show ?thesis
      unfolding unfold by simp
  qed
qed

lemma on_data_text_split:
  assumes "toString (a @ b) = toString a @ toString b"
  shows "on_data parse b (on_data parse a s) = on_data parse (a @ b) s"
  using drain_append [of parse "s\<lparr>responseBuffer := responseBuffer s @ toString a\<rparr>" "toString b"]
  by (simp add: on_data_def assms)

lemma utf8_decode_ascii:
  "\<forall>x \<in> set a. x < 0x80 \<Longrightarrow>
   utf8_decode utf8_idle (a @ b) = map unat a @ utf8_decode utf8_idle b"
proof (induction a)
  case Nil
  show ?case by simp
next
  case (Cons x a)
  then have "unat x < 0x80"
    by (simp add: word_less_nat_alt)
  with Cons show ?case
    by (simp add: utf8_step_def utf8_start_def utf8_idle_def)
qed

lemma toString_ascii:
  assumes "\<forall>x \<in> set a. x < 0x80"
  shows "toString (a @ b) = toString a @ toString b"
  using utf8_decode_ascii [OF assms, of b] utf8_decode_ascii [OF assms, of "[]"]
  by (simp add: toString_def utf8_idle_def)

lemma ascii_chunks:
  "\<forall>c \<in> set (chunk # chunks). \<forall>x \<in> set c. x < 0x80 \<Longrightarrow>
   steps parse s (map Data (chunk # chunks)) = on_data parse (concat (chunk # chunks)) s"
proof (induction chunks arbitrary: chunk s)
  case Nil
  show ?case
    by (simp add: steps_def)
next
  case (Cons c chunks)
  have "steps parse s (map Data (chunk # c # chunks))
        = steps parse (on_data parse chunk s) (map Data (c # chunks))"
    by (simp add: steps_def)
  also have "\<dots> = on_data parse (concat (c # chunks)) (on_data parse chunk s)"
    using Cons.prems by (intro Cons.IH) simp
  also have "\<dots> = on_data parse (chunk @ concat (c # chunks)) s"
    using Cons.prems by (intro on_data_text_split toString_ascii) simp
  finally show ?case
    by simp
qed

text \<open>
  Claim C2, as stated, fails: a response line that arrives after the timeout of a command
  is delivered to the next call if that call has installed its Pending Request by then,
  since a line carries nothing that ties it to a command. Here \<open>wait\<close> is sent and times
  out, \<open>pause\<close> is sent, and the line that then arrives (the first line since \<open>wait\<close> was
  written, so the agent's answer to it) resolves the call of \<open>pause\<close>. \<^verbatim>\<open>JSON.parse\<close> is
  taken as \<open>Some\<close>: a parsed value is represented by its text.
\<close>

theorem C2_late_response_counterexample:
  "completions
     (steps Some (on_connect 1 initial)
        [Send ''wait'' [] 10000, Timeout 0, Send ''pause'' [] 10000, Data [0x7B, 0x7D, 0x0A]])
   = [(0, Reject (TimedOut ''wait'' 10000)), (1, Resolve (Parsed [0x7B, 0x7D]))]"
  by (simp add: steps_def on_connect_def initial_def sendGameCommand_def on_timeout_def
      clearTimeout_def on_data_def toString_def utf8_idle_def utf8_step_def utf8_start_def
      utf16_def drain.simps indexOf_def trim_def is_white_space_def resolver_def Let_def)

text \<open>
  Claim C2, amended. When the timer of an outstanding call fires, its promise is rejected
  with the timeout error and the Pending Request is cleared. That call is never resolved
  or rejected again, whatever happens afterwards. Every response line whose newline
  arrives while no later call has installed a Pending Request is discarded and delivered
  to no caller: after such data, in whatever chunks it comes, the state is the state after
  the timeout, except that the response buffer holds the text received after the last
  newline. So a discarded line leaves no trace, and only text that no newline has
  terminated yet stays buffered, as the beginning of the next line.
\<close>

theorem C2_timeout_rejects_and_clears:
  assumes "outstanding call s" and "map_of (timers s) call = Some (command, timeoutMs)"
  shows "completions (on_timeout call s)
           = completions s @ [(call, Reject (TimedOut command timeoutMs))]
         \<and> pendingResolve (on_timeout call s) = None
         \<and> (\<forall>evs. outcomes_of call (steps parse (on_timeout call s) evs)
                    = [Reject (TimedOut command timeoutMs)])
         \<and> (\<forall>chunk chunks.
               steps parse (on_timeout call s) (map Data (chunk # chunks))
               = (on_timeout call s)
                   \<lparr>responseBuffer :=
                      after_last_newline
                        (responseBuffer s @ concat (map toString (chunk # chunks)))\<rparr>)"
proof -
  note t = on_timeout_outstanding [OF assms]
  have again: "outcomes_of call (steps parse (on_timeout call s) evs)
               = [Reject (TimedOut command timeoutMs)]" for evs
    using steps_retired [OF t(1), of parse evs] t(2) by simp
  have buf: "responseBuffer (on_timeout call s) = responseBuffer s"
    using assms(2) by (simp add: on_timeout_def clearTimeout_def)
  have late: "steps parse (on_timeout call s) (map Data (chunk # chunks))
               = (on_timeout call s)
                   \<lparr>responseBuffer :=
                      after_last_newline
                        (responseBuffer s @ concat (map toString (chunk # chunks)))\<rparr>"
    for chunk chunks
    using steps_data_idle_buffer [OF t(4), of parse chunk chunks] by (simp only: buf)
  from t(3) t(4) again late show ?thesis
    by blast
qed

theorem C2_timeout_rejects_and_clears_witness:
  "outstanding 0 (sendGameCommand ''wait'' [] 10000 (on_connect 1 (initial :: jsstring controller)))
   \<and> map_of (timers (sendGameCommand ''wait'' [] 10000 (on_connect 1 (initial :: jsstring controller)))) 0
       = Some (''wait'', 10000)
   \<and> steps Some (on_timeout 0 (sendGameCommand ''wait'' [] 10000 (on_connect 1 initial)))
        (map Data [[0x7B], [0x7D, 0x0A, 0x7B]])
       = (on_timeout 0 (sendGameCommand ''wait'' [] 10000 (on_connect 1 initial)))
           \<lparr>responseBuffer := [0x7B]\<rparr>
   \<and> completions (on_timeout 0 (sendGameCommand ''wait'' [] 10000
         (on_connect 1 (initial :: jsstring controller))))
       = [(0, Reject (TimedOut ''wait'' 10000))]
   \<and> outcomes_of 0
        (steps Some (on_timeout 0 (sendGameCommand ''wait'' [] 10000 (on_connect 1 initial)))
           [Send ''pause'' [] 10000, Data [0x7B, 0x7D, 0x0A], Timeout 0, Close])
       = [Reject (TimedOut ''wait'' 10000)]"
proof -
  let ?s = "sendGameCommand ''wait'' [] 10000 (on_connect 1 (initial :: jsstring controller))"
  have o: "outstanding 0 ?s"
    by (simp add: outstanding_def sendGameCommand_def on_connect_def initial_def)
  have m: "map_of (timers ?s) 0 = Some (''wait'', 10000)"
    by (simp add: sendGameCommand_def on_connect_def initial_def)
  have c: "completions ?s = []" "responseBuffer ?s = []"
    by (simp_all add: sendGameCommand_def on_connect_def initial_def)
  have tail: "after_last_newline
                (responseBuffer ?s @ concat (map toString [[0x7B], [0x7D, 0x0A, 0x7B]])) = [0x7B]"
    unfolding c
    by (simp add: toString_def utf8_idle_def utf8_step_def utf8_start_def utf16_def
        after_last_newline_def)
  note t = C2_timeout_rejects_and_clears [OF o m, of Some]
  from t have "steps Some (on_timeout 0 ?s) (map Data [[0x7B], [0x7D, 0x0A, 0x7B]])
               = (on_timeout 0 ?s)
                   \<lparr>responseBuffer :=
                      after_last_newline
                        (responseBuffer ?s @ concat (map toString [[0x7B], [0x7D, 0x0A, 0x7B]]))\<rparr>"
    by blast
  then have a: "steps Some (on_timeout 0 ?s) (map Data [[0x7B], [0x7D, 0x0A, 0x7B]])
               = (on_timeout 0 ?s)\<lparr>responseBuffer := [0x7B]\<rparr>"
    unfolding tail .
  from t have b: "completions (on_timeout 0 ?s)
               = completions ?s @ [(0, Reject (TimedOut ''wait'' 10000))]"
    by blast
  from t have d: "outcomes_of 0
        (steps Some (on_timeout 0 ?s) [Send ''pause'' [] 10000, Data [0x7B, 0x7D, 0x0A], Timeout 0, Close])
       = [Reject (TimedOut ''wait'' 10000)]"
    by blast
  from b have b': "completions (on_timeout 0 ?s) = [(0, Reject (TimedOut ''wait'' 10000))]"
    unfolding c by simp
  show ?thesis
    by (intro conjI) (rule o, rule m, rule a, rule b', rule d)
qed

text \<open>
  The text that stays buffered reaches the next call: after the timeout of \<open>wait\<close> the
  chunk \<^verbatim>\<open>{\<close> arrives, \<open>pause\<close> is sent, and the chunk \<^verbatim>\<open>}\<close> with the newline completes the
  line, which resolves the call of \<open>pause\<close>.
\<close>

lemma late_partial_line_reaches_next_call:
  "completions
     (steps Some (on_connect 1 initial)
        [Send ''wait'' [] 10000, Timeout 0, Data [0x7B], Send ''pause'' [] 10000,
         Data [0x7D, 0x0A]])
   = [(0, Reject (TimedOut ''wait'' 10000)), (1, Resolve (Parsed [0x7B, 0x7D]))]"
  by (simp add: steps_def on_connect_def initial_def sendGameCommand_def on_timeout_def
      clearTimeout_def on_data_def toString_def utf8_idle_def utf8_step_def utf8_start_def
      utf16_def drain.simps indexOf_def trim_def is_white_space_def resolver_def Let_def)

text \<open>
  Claim C5 at a concrete input. The message \<^verbatim>\<open>{"a":"?"}\<close>, where \<^verbatim>\<open>?\<close> is the letter e with an
  acute accent (U+00E9), and its newline are eleven bytes in UTF-8, the letter being the
  two bytes C3 A9. Delivered in one chunk, the line handed to
  \<^verbatim>\<open>JSON.parse\<close> contains the code unit E9. Delivered in two chunks that split between C3
  and A9, each chunk is decoded on its own, and the line handed to \<^verbatim>\<open>JSON.parse\<close> contains
  two replacement characters FFFD instead: the same byte stream gives another message.
  \<^verbatim>\<open>JSON.parse\<close> is taken as \<open>Some\<close>: a parsed value is represented by its text.
\<close>

theorem C5_split_inside_character:
  "completions
     (steps Some (sendGameCommand ''get_property'' [] 10000 (on_connect 1 initial))
        [Data [0x7B, 0x22, 0x61, 0x22, 0x3A, 0x22, 0xC3, 0xA9, 0x22, 0x7D, 0x0A]])
   = [(0, Resolve (Parsed [0x7B, 0x22, 0x61, 0x22, 0x3A, 0x22, 0xE9, 0x22, 0x7D]))]
   \<and> completions
     (steps Some (sendGameCommand ''get_property'' [] 10000 (on_connect 1 initial))
        [Data [0x7B, 0x22, 0x61, 0x22, 0x3A, 0x22, 0xC3], Data [0xA9, 0x22, 0x7D, 0x0A]])
   = [(0, Resolve (Parsed [0x7B, 0x22, 0x61, 0x22, 0x3A, 0x22, 0xFFFD, 0xFFFD, 0x22, 0x7D]))]"
  by (simp add: steps_def on_connect_def initial_def sendGameCommand_def
      clearTimeout_def on_data_def toString_def utf8_idle_def utf8_step_def utf8_start_def
      utf16_def drain.simps indexOf_def trim_def is_white_space_def resolver_def Let_def)

text \<open>
  Claim C6. If the connection closes while a command is outstanding, its call is resolved
  by the close handler itself, with the payload \<open>{error: 'Connection closed'}\<close>, and the
  Pending Request is cleared. Whatever happens afterwards (the timer, further data, a
  second close, a teardown, a new connection, later commands), the promise of that call
  is never resolved or rejected again: this is its one completion.
\<close>

theorem C6_close_resolves_once:
  assumes "outstanding call s"
  shows "outcomes_of call (on_close s) = [Resolve (ErrorObject ''Connection closed'')]
         \<and> pendingResolve (on_close s) = None
         \<and> (\<forall>evs. outcomes_of call (steps parse s (Close # evs))
                    = [Resolve (ErrorObject ''Connection closed'')])"
proof -
  note c = on_close_outstanding [OF assms]
  have "outcomes_of call (steps parse s (Close # evs))
        = [Resolve (ErrorObject ''Connection closed'')]" for evs
    using steps_retired [OF c(1), of parse evs] c(2) by (simp add: steps_Cons)
  with c show ?thesis
    by simp
qed

theorem C6_close_resolves_once_witness:
  "outstanding 0 (sendGameCommand ''screenshot'' [] 10000 (on_connect 1 (initial :: jsstring controller)))
   \<and> outcomes_of 0
        (steps Some (sendGameCommand ''screenshot'' [] 10000 (on_connect 1 initial))
           [Close, Timeout 0, Data [0x7B, 0x7D, 0x0A], Close, Connect 2,
            Send ''pause'' [] 10000, Data [0x7B, 0x7D, 0x0A]])
       = [Resolve (ErrorObject ''Connection closed'')]"
proof -
  let ?s = "sendGameCommand ''screenshot'' [] 10000 (on_connect 1 (initial :: jsstring controller))"
  have o: "outstanding 0 ?s"
    by (simp add: outstanding_def sendGameCommand_def on_connect_def initial_def)
  from C6_close_resolves_once [OF o, of Some] o show ?thesis
    by blast
qed

text \<open>
  Claim C7 at a concrete input. A connection is established and the first two bytes of a
  response arrive, so that the response buffer holds a partial frame; then the socket
  closes. The close handler leaves the connection not connected and without a socket, but
  the partial frame is still in the response buffer. The teardown \<^verbatim>\<open>disconnectFromGame\<close>
  empties the buffer in the same state.
\<close>

theorem C7_close_keeps_partial_frame:
  "responseBuffer (on_close (on_data Some [0x7B, 0x22] (on_connect 1 initial))) = [0x7B, 0x22]
   \<and> \<not> connected (on_close (on_data Some [0x7B, 0x22] (on_connect 1 initial)))
   \<and> socket (on_close (on_data Some [0x7B, 0x22] (on_connect 1 initial))) = None
   \<and> responseBuffer (disconnectFromGame (on_data Some [0x7B, 0x22] (on_connect 1 initial))) = []"
  by (simp add: on_close_def disconnectFromGame_def on_connect_def initial_def on_data_def
      toString_def utf8_idle_def utf8_step_def utf8_start_def utf16_def drain.simps Let_def)

subsection \<open>Lines that do not parse\<close>

lemma drain_unparseable:
  assumes "responseBuffer s = l @ 0x0A # rest" and "0x0A \<notin> set l" and "parse (trim l) = None"
  shows "drain parse s
         = drain parse
             (s\<lparr>responseBuffer := rest,
                debug_log := (if pendingResolve s \<noteq> None \<and> trim l \<noteq> []
                              then debug_log s @ [ParseFailed (trim l)] else debug_log s)\<rparr>)"
  using assms
  by (subst drain_line [where l = l and rest = rest]; cases s;
      simp add: Let_def split: option.splits)

lemma drain_resolves:
  assumes "outstanding call s" and "responseBuffer s = l @ 0x0A # rest" and "0x0A \<notin> set l"
    and "trim l \<noteq> []" and "parse (trim l) = Some parsed"
  shows "outcomes_of call (drain parse s) = [Resolve (Parsed parsed)]"
proof -
  let ?r = "resolver call (Parsed parsed) (s\<lparr>responseBuffer := rest, pendingResolve := None\<rparr>)"
  have p: "pendingResolve s = Some call"
    using assms(1) by (simp add: outstanding_def)
  have "drain parse s = drain parse ?r"
    using assms(2-5) p
    by (subst drain_line [where l = l and rest = rest]; cases s; simp add: Let_def)
  moreover have "retired call ?r" and "outcomes_of call ?r = [Resolve (Parsed parsed)]"
    using assms(1)
    by (auto simp add: outstanding_def retired_def outcomes_of_def resolver_def clearTimeout_def
        Let_def filter_empty_conv image_iff)
  ultimately show ?thesis
    using drain_retired [of call ?r parse] by simp
qed

lemma complete_lines_consumed:
  assumes "pre = [] \<or> last pre = 0x0A"
  shows "drain parse (s\<lparr>responseBuffer := pre @ t\<rparr>)
         = drain parse ((drain parse (s\<lparr>responseBuffer := pre\<rparr>))\<lparr>responseBuffer := t\<rparr>)"
proof -
  have "after_last_newline pre = []"
  proof (cases "pre = []")
    case True
    then show ?thesis
      by (simp add: after_last_newline_def)
  next
    case False
    with assms have "pre = butlast pre @ 0x0A # []"
      by (metis append_butlast_last_id)
    then have "after_last_newline pre = after_last_newline []"
      by (metis after_last_newline_line)
    then show ?thesis
      by (simp add: after_last_newline_def)
  qed
  then have "responseBuffer (drain parse (s\<lparr>responseBuffer := pre\<rparr>)) = []"
    by (simp add: drain_buffer)
  with drain_append [of parse "s\<lparr>responseBuffer := pre\<rparr>" t] show ?thesis
    by simp
qed

text \<open>
  Claim C10, as stated, fails in its consequence: after an unparseable line the
  outstanding call is also completed by a later line that parses. Here \<open>pause\<close> is sent,
  the line \<^verbatim>\<open>oops\<close> arrives and then the line \<^verbatim>\<open>{}\<close>: the call is resolved with the parsed
  \<^verbatim>\<open>{}\<close>, though no timer has fired and the connection has not closed. \<^verbatim>\<open>JSON.parse\<close> is
  \<open>parse_empty_object\<close>, which accepts the text \<^verbatim>\<open>{}\<close> only.
\<close>

theorem C10_later_line_counterexample:
  "completions
     (steps parse_empty_object (on_connect 1 initial)
        [Send ''pause'' [] 10000, Data [0x6F, 0x6F, 0x70, 0x73, 0x0A], Data [0x7B, 0x7D, 0x0A]])
   = [(0, Resolve (Parsed [0x7B, 0x7D]))]"
  by (simp add: steps_def on_connect_def initial_def sendGameCommand_def
      clearTimeout_def on_data_def toString_def utf8_idle_def utf8_step_def utf8_start_def
      utf16_def drain.simps indexOf_def trim_def is_white_space_def resolver_def Let_def
      parse_empty_object_def)

text \<open>
  Claim C10, amended. If a complete line received by the controller is not parseable as
  JSON, the line is discarded silently and the Pending Request slot is neither resolved
  nor cleared; an unparseable line is never surfaced to the caller as a result. The
  outstanding call is then completed by whichever comes first: a later line that parses
  (in the same chunk or in a later one), its timeout, or a close of the connection.

  This holds for every complete line of the received text, wherever it stands in a chunk:
  \<open>pre\<close> are the complete lines before it, \<open>m\<close> is the state in which the loop reaches it,
  and the loop goes on from \<open>m'\<close>. The state \<open>m'\<close> is \<open>m\<close> with the line taken off the buffer
  and, when a Pending Request is installed and the line is not blank, the message handed
  to \<^verbatim>\<open>logDebug\<close>, which prints it only when \<^verbatim>\<open>DEBUG\<close> is set; nothing else changes, so
  the completions, the slot and the timers are those of \<open>m\<close>.
\<close>

theorem C10_unparseable_line_dropped:
  assumes "responseBuffer s @ toString data = pre @ l @ 0x0A # rest"
    and "pre = [] \<or> last pre = 0x0A" and "0x0A \<notin> set l"
    and "trim l = line" and "parse line = None"
    and "m = drain parse (s\<lparr>responseBuffer := pre\<rparr>)"
    and "m' = m\<lparr>responseBuffer := rest,
                 debug_log := (if pendingResolve m \<noteq> None \<and> line \<noteq> []
                               then debug_log m @ [ParseFailed line] else debug_log m)\<rparr>"
  shows "on_data parse data s = drain parse m'
         \<and> pendingResolve m' = pendingResolve m \<and> timers m' = timers m
         \<and> completions m' = completions m
         \<and> (outstanding call m \<longrightarrow> outstanding call m')
         \<and> (outstanding call m \<and> 0x0A \<notin> set rest \<longrightarrow>
              on_data parse data s = m'
              \<and> (map_of (timers m) call = Some (command, timeoutMs) \<longrightarrow>
                   outcomes_of call (on_timeout call m') = [Reject (TimedOut command timeoutMs)])
              \<and> outcomes_of call (on_close m') = [Resolve (ErrorObject ''Connection closed'')]
              \<and> (responseBuffer m' @ toString data' = l' @ 0x0A # rest' \<and> 0x0A \<notin> set l'
                   \<and> trim l' \<noteq> [] \<and> parse (trim l') = Some parsed \<longrightarrow>
                   outcomes_of call (on_data parse data' m') = [Resolve (Parsed parsed)]))
         \<and> (outstanding call m \<and> rest = l' @ 0x0A # rest' \<and> 0x0A \<notin> set l'
              \<and> trim l' \<noteq> [] \<and> parse (trim l') = Some parsed \<longrightarrow>
              outcomes_of call (on_data parse data s) = [Resolve (Parsed parsed)])"
proof -
  have "on_data parse data s = drain parse (s\<lparr>responseBuffer := pre @ (l @ 0x0A # rest)\<rparr>)"
    by (simp add: on_data_def assms(1))
  also have "\<dots> = drain parse (m\<lparr>responseBuffer := l @ 0x0A # rest\<rparr>)"
    unfolding assms(6) using assms(2) by (rule complete_lines_consumed)
  also have "\<dots> = drain parse m'"
    unfolding assms(7)
    by (subst drain_unparseable [where l = l and rest = rest])
       (simp_all add: assms(3) assms(4) assms(5))
  finally have reached: "on_data parse data s = drain parse m'" .
  have same: "pendingResolve m' = pendingResolve m" "timers m' = timers m"
    "completions m' = completions m" "responseBuffer m' = rest"
    by (simp_all add: assms(7))
  have still: "outstanding call m'" if "outstanding call m"
    using that by (simp add: outstanding_def assms(7))
  have alone: "on_data parse data s = m'
      \<and> (map_of (timers m) call = Some (command, timeoutMs) \<longrightarrow>
           outcomes_of call (on_timeout call m') = [Reject (TimedOut command timeoutMs)])
      \<and> outcomes_of call (on_close m') = [Resolve (ErrorObject ''Connection closed'')]
      \<and> (responseBuffer m' @ toString data' = l' @ 0x0A # rest' \<and> 0x0A \<notin> set l'
           \<and> trim l' \<noteq> [] \<and> parse (trim l') = Some parsed \<longrightarrow>
           outcomes_of call (on_data parse data' m') = [Resolve (Parsed parsed)])"
    if o: "outstanding call m" and r: "0x0A \<notin> set rest"
  proof (intro conjI impI)
    show "on_data parse data s = m'"
      unfolding reached by (rule drain_done) (simp add: same r)
    show "outcomes_of call (on_timeout call m') = [Reject (TimedOut command timeoutMs)]"
      if "map_of (timers m) call = Some (command, timeoutMs)"
      using on_timeout_outstanding(2) [OF still [OF o], of command timeoutMs] that
      by (simp add: same)
    show "outcomes_of call (on_close m') = [Resolve (ErrorObject ''Connection closed'')]"
      using still [OF o] by (rule on_close_outstanding(2))
    show "outcomes_of call (on_data parse data' m') = [Resolve (Parsed parsed)]"
      if later: "responseBuffer m' @ toString data' = l' @ 0x0A # rest' \<and> 0x0A \<notin> set l'
           \<and> trim l' \<noteq> [] \<and> parse (trim l') = Some parsed"
    proof -
      let ?u = "m'\<lparr>responseBuffer := responseBuffer m' @ toString data'\<rparr>"
      have "outstanding call ?u"
        using still [OF o] by (simp add: outstanding_def)
      moreover have "responseBuffer ?u = l' @ 0x0A # rest'"
        using later by simp
      ultimately have "outcomes_of call (drain parse ?u) = [Resolve (Parsed parsed)]"
        using later by (intro drain_resolves [where l = l' and rest = rest']) simp_all
      then show ?thesis
        by (simp add: on_data_def)
    qed
  qed
  have within: "outcomes_of call (on_data parse data s) = [Resolve (Parsed parsed)]"
    if "outstanding call m \<and> rest = l' @ 0x0A # rest' \<and> 0x0A \<notin> set l'
        \<and> trim l' \<noteq> [] \<and> parse (trim l') = Some parsed"
  proof -
    from that have "outstanding call m'"
      by (simp add: still)
    moreover from that have "responseBuffer m' = l' @ 0x0A # rest'"
      by (simp add: same)
    ultimately show ?thesis
      unfolding reached using that
      by (intro drain_resolves [where l = l' and rest = rest']) simp_all
  qed
  from reached same(1-3) still alone within show ?thesis
    by blast
qed

text \<open>
  The theorem at two chunks received while \<open>pause\<close> is outstanding. In the chunk
  \<^verbatim>\<open>o\n{}\n\<close> the unparseable line \<^verbatim>\<open>o\<close> is followed by a line that parses, which
  resolves the call. In the chunk \<^verbatim>\<open>x\noops\n\<close> the unparseable line \<^verbatim>\<open>oops\<close> stands
  after another line and nothing follows it: the call stays outstanding, and a timeout, a
  close or the later chunk \<^verbatim>\<open>{}\n\<close> completes it.
\<close>

theorem C10_unparseable_line_dropped_witness:
  "outstanding 0 (sendGameCommand ''pause'' [] 10000 (on_connect 1 (initial :: jsstring controller)))
   \<and> parse_empty_object [0x6F] = None
   \<and> parse_empty_object [0x6F, 0x6F, 0x70, 0x73] = None
   \<and> outcomes_of 0
        (on_data parse_empty_object [0x6F, 0x0A, 0x7B, 0x7D, 0x0A]
           (sendGameCommand ''pause'' [] 10000 (on_connect 1 (initial :: jsstring controller))))
       = [Resolve (Parsed [0x7B, 0x7D])]
   \<and> on_data parse_empty_object [0x78, 0x0A, 0x6F, 0x6F, 0x70, 0x73, 0x0A]
        (sendGameCommand ''pause'' [] 10000 (on_connect 1 initial))
       = (sendGameCommand ''pause'' [] 10000 (on_connect 1 initial))
           \<lparr>responseBuffer := [],
            debug_log := [ParseFailed [0x78], ParseFailed [0x6F, 0x6F, 0x70, 0x73]]\<rparr>
   \<and> outcomes_of 0
        (on_timeout 0
           ((sendGameCommand ''pause'' [] 10000 (on_connect 1 (initial :: jsstring controller)))
              \<lparr>responseBuffer := [],
               debug_log := [ParseFailed [0x78], ParseFailed [0x6F, 0x6F, 0x70, 0x73]]\<rparr>))
       = [Reject (TimedOut ''pause'' 10000)]
   \<and> outcomes_of 0
        (on_close
           ((sendGameCommand ''pause'' [] 10000 (on_connect 1 (initial :: jsstring controller)))
              \<lparr>responseBuffer := [],
               debug_log := [ParseFailed [0x78], ParseFailed [0x6F, 0x6F, 0x70, 0x73]]\<rparr>))
       = [Resolve (ErrorObject ''Connection closed'')]
   \<and> outcomes_of 0
        (on_data parse_empty_object [0x7B, 0x7D, 0x0A]
           ((sendGameCommand ''pause'' [] 10000 (on_connect 1 initial))
              \<lparr>responseBuffer := [],
               debug_log := [ParseFailed [0x78], ParseFailed [0x6F, 0x6F, 0x70, 0x73]]\<rparr>))
       = [Resolve (Parsed [0x7B, 0x7D])]"
proof -
  let ?parse = "parse_empty_object"
  let ?s = "sendGameCommand ''pause'' [] 10000 (on_connect 1 (initial :: jsstring controller))"
  let ?bad = "[0x6F, 0x6F, 0x70, 0x73] :: jsstring"
  let ?obj = "[0x7B, 0x7D] :: jsstring"
  let ?end = "?s\<lparr>responseBuffer := [], debug_log := [ParseFailed [0x78], ParseFailed ?bad]\<rparr>"
  note defs = sendGameCommand_def on_connect_def initial_def
  note dec = toString_def utf8_idle_def utf8_step_def utf8_start_def utf16_def
  have o: "outstanding 0 ?s"
    by (simp add: outstanding_def defs)
  have n: "?parse [0x6F] = None" "?parse ?bad = None" "?parse ?obj = Some ?obj"
    by (simp_all add: parse_empty_object_def)
  have t: "trim [0x6F] = [0x6F]" "trim ?bad = ?bad" "trim ?obj = ?obj"
    by (simp_all add: trim_def is_white_space_def)
  have m1: "drain ?parse (?s\<lparr>responseBuffer := []\<rparr>) = ?s"
    by (simp add: defs drain.simps indexOf_def)
  have m2: "drain ?parse (?s\<lparr>responseBuffer := [0x78, 0x0A]\<rparr>)
            = ?s\<lparr>responseBuffer := [], debug_log := [ParseFailed [0x78]]\<rparr>"
    by (simp add: defs drain.simps indexOf_def trim_def is_white_space_def Let_def
        parse_empty_object_def)
  have h1: "responseBuffer ?s @ toString [0x6F, 0x0A, 0x7B, 0x7D, 0x0A]
            = [] @ [0x6F] @ 0x0A # [0x7B, 0x7D, 0x0A]"
    by (simp add: defs dec)
  have h2: "responseBuffer ?s @ toString [0x78, 0x0A, 0x6F, 0x6F, 0x70, 0x73, 0x0A]
            = [0x78, 0x0A] @ ?bad @ 0x0A # []"
    by (simp add: defs dec)
  have p1: "([] :: jsstring) = [] \<or> last ([] :: jsstring) = 0x0A"
    and p2: "[0x78, 0x0A] = ([] :: jsstring) \<or> last ([0x78, 0x0A] :: jsstring) = 0x0A"
    and nl: "0x0A \<notin> set ([0x6F] :: jsstring)" "0x0A \<notin> set ?bad"
    by simp_all
  note w1 = C10_unparseable_line_dropped [where parse = ?parse and call = 0 and l' = ?obj
      and rest' = "[]" and parsed = ?obj, OF h1 p1 nl(1) t(1) n(1) refl refl]
  have "outstanding 0 (drain ?parse (?s\<lparr>responseBuffer := []\<rparr>))
        \<and> [0x7B, 0x7D, 0x0A] = ?obj @ 0x0A # []
        \<and> 0x0A \<notin> set ?obj \<and> trim ?obj \<noteq> [] \<and> ?parse (trim ?obj) = Some ?obj"
    unfolding m1 t(3) using o n(3) by simp
  with w1 have within: "outcomes_of 0 (on_data ?parse [0x6F, 0x0A, 0x7B, 0x7D, 0x0A] ?s)
      = [Resolve (Parsed ?obj)]"
    by blast
  note w2 = C10_unparseable_line_dropped [where parse = ?parse and call = 0 and l' = ?obj
      and rest' = "[]" and parsed = ?obj and data' = "[0x7B, 0x7D, 0x0A]"
      and command = "''pause''" and timeoutMs = 10000, OF h2 p2 nl(2) t(2) n(2) refl refl,
      unfolded m2]
  have e: "(?s\<lparr>responseBuffer := [], debug_log := [ParseFailed [0x78]]\<rparr>)
             \<lparr>responseBuffer := [],
              debug_log :=
                (if pendingResolve (?s\<lparr>responseBuffer := [], debug_log := [ParseFailed [0x78]]\<rparr>)
                    \<noteq> None \<and> ?bad \<noteq> []
                 then debug_log (?s\<lparr>responseBuffer := [], debug_log := [ParseFailed [0x78]]\<rparr>)
                      @ [ParseFailed ?bad]
                 else debug_log (?s\<lparr>responseBuffer := [], debug_log := [ParseFailed [0x78]]\<rparr>))\<rparr>
           = ?end"
    by (simp add: defs)
  note w3 = w2 [unfolded e]
  have q: "outstanding 0 (?s\<lparr>responseBuffer := [], debug_log := [ParseFailed [0x78]]\<rparr>)
           \<and> 0x0A \<notin> set ([] :: jsstring)"
    using o by (simp add: outstanding_def)
  have tm: "map_of (timers (?s\<lparr>responseBuffer := [], debug_log := [ParseFailed [0x78]]\<rparr>)) 0
            = Some (''pause'', 10000)"
    by (simp add: defs)
  have later: "responseBuffer ?end @ toString [0x7B, 0x7D, 0x0A] = ?obj @ 0x0A # []
               \<and> 0x0A \<notin> set ?obj \<and> trim ?obj \<noteq> [] \<and> ?parse (trim ?obj) = Some ?obj"
    unfolding t(3) using n(3) by (simp add: dec)
  from w3 q have alone: "on_data ?parse [0x78, 0x0A, 0x6F, 0x6F, 0x70, 0x73, 0x0A] ?s = ?end"
    by blast
  from w3 q tm have timeout: "outcomes_of 0 (on_timeout 0 ?end) = [Reject (TimedOut ''pause'' 10000)]"
    by blast
  from w3 q have closed: "outcomes_of 0 (on_close ?end) = [Resolve (ErrorObject ''Connection closed'')]"
    by blast
  from w3 q later have resolved:
    "outcomes_of 0 (on_data ?parse [0x7B, 0x7D, 0x0A] ?end) = [Resolve (Parsed ?obj)]"
    by blast
  show ?thesis
    by (intro conjI) (rule o, rule n(1), rule n(2), rule within, rule alone, rule timeout,
        rule closed, rule resolved)
qed

subsection \<open>The connection routine\<close>

lemma connect_attempts_shape:
  "\<exists>b final s'.
     connect_attempts activeProcess accepted attempt s
       = (concat (map (\<lambda>n. [CreateConnection n, DebugRetry n, Delay retryDelay]) [attempt..<b])
          @ final, s')
     \<and> attempt \<le> b \<and> (attempt \<le> Suc maxAttempts \<longrightarrow> b \<le> Suc maxAttempts)
     \<and> (\<forall>n. attempt \<le> n \<and> n < b \<longrightarrow> activeProcess n \<and> \<not> accepted n)
     \<and> ((b \<le> maxAttempts \<and> \<not> activeProcess b \<and> final = [DebugAborted] \<and> s' = s)
          \<or> (b \<le> maxAttempts \<and> activeProcess b \<and> accepted b
              \<and> final = [CreateConnection b, DebugConnected b, ErrorConnected]
              \<and> s' = on_connect b s)
          \<or> (maxAttempts < b \<and> final = [ErrorFailed maxAttempts] \<and> s' = s))"
proof (induction activeProcess accepted attempt s rule: connect_attempts.induct)
  case (1 activeProcess accepted attempt s)
  let ?block = "\<lambda>n. [CreateConnection n, DebugRetry n, Delay retryDelay]"
  consider (over) "\<not> attempt \<le> maxAttempts"
    | (dead) "attempt \<le> maxAttempts" "\<not> activeProcess attempt"
    | (ok) "attempt \<le> maxAttempts" "activeProcess attempt" "accepted attempt"
    | (retry) "attempt \<le> maxAttempts" "activeProcess attempt" "\<not> accepted attempt"
    by blast
  then show ?case
  proof cases
    case over
    then have "connect_attempts activeProcess accepted attempt s = ([ErrorFailed maxAttempts], s)"
      by (subst connect_attempts.simps) simp
    with over show ?thesis
      by (intro exI [of _ attempt] exI [of _ "[ErrorFailed maxAttempts]"] exI [of _ s]) auto
  next
    case dead
    then have "connect_attempts activeProcess accepted attempt s = ([DebugAborted], s)"
      by (subst connect_attempts.simps) simp
    with dead show ?thesis
      by (intro exI [of _ attempt] exI [of _ "[DebugAborted]"] exI [of _ s]) auto
  next
    case ok
    then have "connect_attempts activeProcess accepted attempt s
               = ([CreateConnection attempt, DebugConnected attempt, ErrorConnected],
                  on_connect attempt s)"
      by (subst connect_attempts.simps) simp
    with ok show ?thesis
      by (intro exI [of _ attempt]
          exI [of _ "[CreateConnection attempt, DebugConnected attempt, ErrorConnected]"]
          exI [of _ "on_connect attempt s"]) auto
  next
    case retry
    from "1.IH" [OF retry(1) _ retry(3)] retry(2)
    obtain b final s' where
      rec: "connect_attempts activeProcess accepted (attempt + 1) s
            = (concat (map ?block [attempt + 1..<b]) @ final, s')"
      and b: "attempt + 1 \<le> b" "attempt + 1 \<le> Suc maxAttempts \<longrightarrow> b \<le> Suc maxAttempts"
      and fails: "\<forall>n. attempt + 1 \<le> n \<and> n < b \<longrightarrow> activeProcess n \<and> \<not> accepted n"
      and final: "(b \<le> maxAttempts \<and> \<not> activeProcess b \<and> final = [DebugAborted] \<and> s' = s)
          \<or> (b \<le> maxAttempts \<and> activeProcess b \<and> accepted b
              \<and> final = [CreateConnection b, DebugConnected b, ErrorConnected]
              \<and> s' = on_connect b s)
          \<or> (maxAttempts < b \<and> final = [ErrorFailed maxAttempts] \<and> s' = s)"
      by auto
    have upt: "[attempt..<b] = attempt # [attempt + 1..<b]"
      using b(1) by (simp add: upt_conv_Cons)
    have "connect_attempts activeProcess accepted attempt s
          = (concat (map ?block [attempt..<b]) @ final, s')"
      using retry rec by (subst connect_attempts.simps) (simp add: upt)
    moreover have "\<forall>n. attempt \<le> n \<and> n < b \<longrightarrow> activeProcess n \<and> \<not> accepted n"
    proof (intro allI impI)
      fix n assume n: "attempt \<le> n \<and> n < b"
      show "activeProcess n \<and> \<not> accepted n"
      proof (cases "n = attempt")
        case True
        with retry show ?thesis by simp
      next
        case False
        with n fails show ?thesis by simp
      qed
    qed
    moreover have "attempt \<le> b" "attempt \<le> Suc maxAttempts \<longrightarrow> b \<le> Suc maxAttempts"
      using b retry(1) by simp_all
    ultimately show ?thesis
      using final by blast
  qed
qed

text \<open>
  Claim C9. The connection routine first waits 2000 ms. It then makes attempts numbered
  from 1, each failed attempt followed by a wait of 500 ms, and ends in one of three
  ways: before an attempt of number at most 10, because the target process is no longer
  running (so without any attempt, if that is so at the start); with an attempt of number
  at most 10 that connects; or after ten failed attempts, with the diagnostic and nothing
  else, the connected flag and the rest of the connection being as before. The delays and
  the number of attempts are constants of the routine, whose only input is the project
  path. The routine always returns.
\<close>

theorem C9_connect_routine:
  "(\<exists>b final s'.
      connectToGame activeProcess accepted path s
        = (Delay 2000 #
           concat (map (\<lambda>n. [CreateConnection n, DebugRetry n, Delay 500]) [1..<b]) @ final, s')
      \<and> 1 \<le> b \<and> b \<le> 11
      \<and> (\<forall>n. 1 \<le> n \<and> n < b \<longrightarrow> activeProcess n \<and> \<not> accepted n)
      \<and> ((b \<le> 10 \<and> \<not> activeProcess b \<and> final = [DebugAborted]
             \<and> s' = s\<lparr>projectPath := Some path\<rparr>)
           \<or> (b \<le> 10 \<and> activeProcess b \<and> accepted b
               \<and> final = [CreateConnection b, DebugConnected b, ErrorConnected]
               \<and> s' = on_connect b (s\<lparr>projectPath := Some path\<rparr>))
           \<or> (b = 11 \<and> final = [ErrorFailed 10] \<and> s' = s\<lparr>projectPath := Some path\<rparr>)))
   \<and> (\<not> activeProcess 1 \<longrightarrow>
        connectToGame activeProcess accepted path s
          = ([Delay 2000, DebugAborted], s\<lparr>projectPath := Some path\<rparr>))
   \<and> ((\<forall>n. 1 \<le> n \<and> n \<le> 10 \<longrightarrow> activeProcess n \<and> \<not> accepted n) \<longrightarrow>
        connectToGame activeProcess accepted path s
          = (Delay 2000 #
             concat (map (\<lambda>n. [CreateConnection n, DebugRetry n, Delay 500]) [1..<11])
             @ [ErrorFailed 10], s\<lparr>projectPath := Some path\<rparr>)
        \<and> connected (snd (connectToGame activeProcess accepted path s)) = connected s)"
proof -
  let ?s = "s\<lparr>projectPath := Some path\<rparr>"
  let ?block = "\<lambda>n. [CreateConnection n, DebugRetry n, Delay 500]"
  from connect_attempts_shape [of activeProcess accepted 1 ?s]
  obtain b final s' where
    run: "connect_attempts activeProcess accepted 1 ?s = (concat (map ?block [1..<b]) @ final, s')"
    and b: "1 \<le> b" "b \<le> 11"
    and fails: "\<forall>n. 1 \<le> n \<and> n < b \<longrightarrow> activeProcess n \<and> \<not> accepted n"
    and final: "(b \<le> 10 \<and> \<not> activeProcess b \<and> final = [DebugAborted] \<and> s' = ?s)
          \<or> (b \<le> 10 \<and> activeProcess b \<and> accepted b
              \<and> final = [CreateConnection b, DebugConnected b, ErrorConnected]
              \<and> s' = on_connect b ?s)
          \<or> (10 < b \<and> final = [ErrorFailed 10] \<and> s' = ?s)"
    by (auto simp add: maxAttempts_def retryDelay_def)
  have whole: "connectToGame activeProcess accepted path s
               = (Delay 2000 # concat (map ?block [1..<b]) @ final, s')"
    using run by (simp add: connectToGame_def)
  have final': "(b \<le> 10 \<and> \<not> activeProcess b \<and> final = [DebugAborted] \<and> s' = ?s)
          \<or> (b \<le> 10 \<and> activeProcess b \<and> accepted b
              \<and> final = [CreateConnection b, DebugConnected b, ErrorConnected]
              \<and> s' = on_connect b ?s)
          \<or> (b = 11 \<and> final = [ErrorFailed 10] \<and> s' = ?s)"
    using final b(2) by auto
  have shape: "\<exists>b final s'.
      connectToGame activeProcess accepted path s
        = (Delay 2000 # concat (map ?block [1..<b]) @ final, s')
      \<and> 1 \<le> b \<and> b \<le> 11
      \<and> (\<forall>n. 1 \<le> n \<and> n < b \<longrightarrow> activeProcess n \<and> \<not> accepted n)
      \<and> ((b \<le> 10 \<and> \<not> activeProcess b \<and> final = [DebugAborted] \<and> s' = ?s)
           \<or> (b \<le> 10 \<and> activeProcess b \<and> accepted b
               \<and> final = [CreateConnection b, DebugConnected b, ErrorConnected]
               \<and> s' = on_connect b ?s)
           \<or> (b = 11 \<and> final = [ErrorFailed 10] \<and> s' = ?s))"
    using whole b fails final' by blast
  have dead: "connectToGame activeProcess accepted path s = ([Delay 2000, DebugAborted], ?s)"
    if "\<not> activeProcess 1"
  proof -
    have "b = 1"
    proof (rule ccontr)
      assume "b \<noteq> 1"
      with b(1) have "1 \<le> (1::nat) \<and> 1 < b" by simp
      with fails that show False by blast
    qed
    with final' that whole show ?thesis
      by auto
  qed
  have exhausted: "connectToGame activeProcess accepted path s
          = (Delay 2000 # concat (map ?block [1..<11]) @ [ErrorFailed 10], ?s)
        \<and> connected (snd (connectToGame activeProcess accepted path s)) = connected s"
    if all: "\<forall>n. 1 \<le> n \<and> n \<le> 10 \<longrightarrow> activeProcess n \<and> \<not> accepted n"
  proof -
    have "b = 11"
    proof (rule ccontr)
      assume "b \<noteq> 11"
      with b final' have "b \<le> 10 \<and> (\<not> activeProcess b \<or> accepted b)" by auto
      with b(1) all show False by blast
    qed
    with final' whole show ?thesis
      by auto
  qed
  from shape dead exhausted show ?thesis
    by blast
qed

theorem C9_connect_routine_witness:
  "connectToGame (\<lambda>n. True) (\<lambda>n. False) ''/project'' (initial :: jsstring controller)
       = ([Delay 2000,
           CreateConnection 1, DebugRetry 1, Delay 500, CreateConnection 2, DebugRetry 2, Delay 500,
           CreateConnection 3, DebugRetry 3, Delay 500, CreateConnection 4, DebugRetry 4, Delay 500,
           CreateConnection 5, DebugRetry 5, Delay 500, CreateConnection 6, DebugRetry 6, Delay 500,
           CreateConnection 7, DebugRetry 7, Delay 500, CreateConnection 8, DebugRetry 8, Delay 500,
           CreateConnection 9, DebugRetry 9, Delay 500, CreateConnection 10, DebugRetry 10, Delay 500,
           ErrorFailed 10],
          initial\<lparr>projectPath := Some ''/project''\<rparr>)
   \<and> \<not> connected (snd (connectToGame (\<lambda>n. True) (\<lambda>n. False) ''/project''
                         (initial :: jsstring controller)))
   \<and> \<not> (\<lambda>n::nat. 2 \<le> n) 1
   \<and> connectToGame (\<lambda>n. 2 \<le> n) (\<lambda>n. True) ''/project'' (initial :: jsstring controller)
       = ([Delay 2000, DebugAborted], initial\<lparr>projectPath := Some ''/project''\<rparr>)"
proof -
  have all: "\<forall>n::nat. 1 \<le> n \<and> n \<le> 10 \<longrightarrow> (\<lambda>n. True) n \<and> \<not> (\<lambda>n. False) n"
    by simp
  have upt: "[1..<11] = [1, 2, 3, 4, 5, 6, 7, 8, 9, 10 :: nat]"
    by (simp add: upt_rec)
  note t = C9_connect_routine [of "\<lambda>n. True" "\<lambda>n. False" "''/project''"
      "initial :: jsstring controller"]
  note u = C9_connect_routine [of "\<lambda>n. 2 \<le> n" "\<lambda>n. True" "''/project''"
      "initial :: jsstring controller"]
  from t all have a: "connectToGame (\<lambda>n. True) (\<lambda>n. False) ''/project'' (initial :: jsstring controller)
      = (Delay 2000 #
         concat (map (\<lambda>n. [CreateConnection n, DebugRetry n, Delay 500]) [1..<11])
         @ [ErrorFailed 10], initial\<lparr>projectPath := Some ''/project''\<rparr>)"
    by blast
  have n: "\<not> (\<lambda>n::nat. 2 \<le> n) 1"
    by simp
  with u have d: "connectToGame (\<lambda>n. 2 \<le> n) (\<lambda>n. True) ''/project'' (initial :: jsstring controller)
      = ([Delay 2000, DebugAborted], initial\<lparr>projectPath := Some ''/project''\<rparr>)"
    by blast
  show ?thesis
    unfolding a d using upt by (simp add: initial_def)
qed


end
